theory Spec2Isabelle
  imports Complex_Main
begin

section \<open>Data model (lib/types.ts)\<close>

text \<open>
  A JavaScript \<open>Date\<close> is modelled by its \<open>getTime()\<close> value, an integer number of
  milliseconds; invalid dates are outside the model. A \<open>number\<close> that holds an identifier
  or a retry counter is an integer; \<open>hoursWorked\<close> is the rational value of the stored
  double, which the operations below carry along and never compute with. The auto-incremented
  \<open>id\<close> of a stored object is the key under which its row is kept, so the records below
  carry no \<open>id\<close> field.
\<close>

record OfflineTimeEntry =
  userId :: string
  date :: int
  timeStarted :: int
  timeEnded :: int
  hoursWorked :: rat
  studies :: "string list"
  participated :: bool
  comments :: "string option"
  synced :: bool
  createdAt :: int
  updatedAt :: int

text \<open>\<open>Omit<OfflineTimeEntry, "id" | "synced" | "createdAt" | "updatedAt">\<close>\<close>

record NewTimeEntry =
  n_userId :: string
  n_date :: int
  n_timeStarted :: int
  n_timeEnded :: int
  n_hoursWorked :: rat
  n_studies :: "string list"
  n_participated :: bool
  n_comments :: "string option"

text \<open>
  \<open>Partial<OfflineTimeEntry>\<close>: every field may be absent (\<open>None\<close>). \<open>comments\<close> is
  optional in the full record already, so a present key may hold \<open>undefined\<close>.
\<close>

record PartialTimeEntry =
  p_userId :: "string option"
  p_date :: "int option"
  p_timeStarted :: "int option"
  p_timeEnded :: "int option"
  p_hoursWorked :: "rat option"
  p_studies :: "string list option"
  p_participated :: "bool option"
  p_comments :: "string option option"
  p_synced :: "bool option"
  p_createdAt :: "int option"
  p_updatedAt :: "int option"

record OfflineUser =
  email :: string
  name :: "string option"
  lastSync :: int

datatype Action = Create | Update | Delete

datatype TableName = TimeEntryTable | UserTable

datatype Payload = FullEntry OfflineTimeEntry | PartialEntry PartialTimeEntry | IdOnly int

record SyncQueueItem =
  action :: Action
  table :: TableName
  recordId :: string
  data :: Payload
  timestamp :: int
  retryCount :: nat

record ServerStudy =
  s_id :: string
  participant :: string

text \<open>The ISO timestamps of a server entry are modelled by the instants they denote.\<close>

record ServerTimeEntry =
  se_id :: string
  se_date :: int
  se_timeStarted :: int
  se_timeEnded :: int
  se_hoursWorked :: rat
  se_studies :: "ServerStudy list"
  se_participated :: bool
  se_comments :: "string option"
  se_createdAt :: int
  se_updatedAt :: int

section \<open>A Dexie table with an auto-incremented primary key\<close>

text \<open>
  The rows are kept in primary-key order; \<open>nextKey\<close> is the key generator. \<open>update\<close> and
  \<open>delete\<close> on a key that is not there change nothing and do not fail, as in Dexie.
\<close>

record 'a Table =
  rows :: "(int \<times> 'a) list"
  nextKey :: int

definition emptyTable :: "'a Table" where
  "emptyTable = \<lparr>rows = [], nextKey = 1\<rparr>"

definition tadd :: "'a \<Rightarrow> 'a Table \<Rightarrow> int \<times> 'a Table" where
  "tadd x t = (nextKey t, \<lparr>rows = rows t @ [(nextKey t, x)], nextKey = nextKey t + 1\<rparr>)"

definition tget :: "int \<Rightarrow> 'a Table \<Rightarrow> 'a option" where
  "tget k t = map_of (rows t) k"

definition tupdate :: "int \<Rightarrow> ('a \<Rightarrow> 'a) \<Rightarrow> 'a Table \<Rightarrow> 'a Table" where
  "tupdate k f t = t\<lparr>rows := map (\<lambda>(k', x). if k' = k then (k', f x) else (k', x)) (rows t)\<rparr>"

definition tdelete :: "int \<Rightarrow> 'a Table \<Rightarrow> 'a Table" where
  "tdelete k t = t\<lparr>rows := filter (\<lambda>(k', x). k' \<noteq> k) (rows t)\<rparr>"

definition wfTable :: "'a Table \<Rightarrow> bool" where
  "wfTable t = (distinct (map fst (rows t)) \<and> list_all (\<lambda>(k, x). k < nextKey t) (rows t))"

section \<open>The environment and the state\<close>

record EntryBody =
  b_date :: "int option"
  b_timeStarted :: "int option"
  b_timeEnded :: "int option"
  b_studies :: "string list option"
  b_participated :: "bool option"
  b_comments :: "string option"

datatype Request =
    PostTimeEntry EntryBody
  | PutTimeEntry string EntryBody
  | DeleteTimeEntry string
  | GetMonthly int int

text \<open>
  What \<open>fetch\<close> gives: a rejected promise (network failure), or a response with its \<open>ok\<close>
  flag and a body; \<open>response.json()\<close> throws on \<open>BadJson\<close>, and \<open>Json None\<close> is a body
  without an \<open>entries\<close> member.
\<close>

datatype Body = BadJson | Json "ServerTimeEntry list option"

datatype FetchResult = Rejected | Response bool Body

datatype Effect = Fetch Request | Delay nat

datatype error =
    StorageError | NetworkError | HttpError | ParseError
  | InvalidData | UnknownTable | OfflineError

text \<open>
  The environment is what the code cannot decide: whether the n-th storage operation
  fails, what the n-th reading of the clock gives, how the remote service answers a
  request after a given history of effects, and the calendar of the runtime's \<open>Date\<close>.
\<close>

record Env =
  storeFails :: "nat \<Rightarrow> bool"
  clock :: "nat \<Rightarrow> int"
  respond :: "Effect list \<Rightarrow> Request \<Rightarrow> FetchResult"
  mkDate :: "int \<Rightarrow> int \<Rightarrow> int \<Rightarrow> int \<Rightarrow> int \<Rightarrow> int \<Rightarrow> int"
  getFullYear :: "int \<Rightarrow> int"
  getMonth :: "int \<Rightarrow> int"

text \<open>The \<open>SyncStatus\<close> of lib/types.ts, as \<open>getSyncStatus\<close> returns it.\<close>

record SyncStatus =
  st_syncInProgress :: bool
  st_isOnline :: bool

text \<open>
  The state: the three tables, the flag of the engine, the connectivity signal, and what
  an observer of the run sees: the trace of remote calls and delays, the count of storage
  operations and of clock readings, and \<open>statusLog\<close>, the answers of the status polls
  made while a drain pass was suspended (see \<open>suspended\<close> below).
\<close>

record World =
  timeEntries :: "OfflineTimeEntry Table"
  users :: "OfflineUser Table"
  syncQueue :: "SyncQueueItem Table"
  syncInProgress :: bool
  onLine :: bool
  trace :: "Effect list"
  storeOps :: nat
  ticks :: nat
  statusLog :: "SyncStatus list"

text \<open>
  An asynchronous operation takes the state and gives back a result or a thrown error,
  with the state it left behind: what was written before a throw stays written.
\<close>

type_synonym 'a io = "World \<Rightarrow> (error + 'a) \<times> World"

definition ret :: "'a \<Rightarrow> 'a io" where
  "ret x w = (Inr x, w)"

definition throw :: "error \<Rightarrow> 'a io" where
  "throw e w = (Inl e, w)"

definition await :: "'a io \<Rightarrow> ('a \<Rightarrow> 'b io) \<Rightarrow> 'b io" where
  "await m f w = (case m w of (Inl e, w1) \<Rightarrow> (Inl e, w1) | (Inr x, w1) \<Rightarrow> f x w1)"

definition catch :: "'a io \<Rightarrow> (error \<Rightarrow> 'a io) \<Rightarrow> 'a io" where
  "catch m h w = (case m w of (Inl e, w1) \<Rightarrow> h e w1 | (Inr x, w1) \<Rightarrow> (Inr x, w1))"

fun forEach :: "'a list \<Rightarrow> ('a \<Rightarrow> unit io) \<Rightarrow> unit io" where
  "forEach [] body w = (Inr (), w)"
| "forEach (x # xs) body w =
     (case body x w of (Inl e, w1) \<Rightarrow> (Inl e, w1) | (Inr u, w1) \<Rightarrow> forEach xs body w1)"

definition storeOp :: "Env \<Rightarrow> (World \<Rightarrow> 'a \<times> World) \<Rightarrow> 'a io" where
  "storeOp E f w =
     (let w1 = w\<lparr>storeOps := storeOps w + 1\<rparr>
      in if storeFails E (storeOps w) then (Inl StorageError, w1)
         else (case f w1 of (x, w2) \<Rightarrow> (Inr x, w2)))"

definition newDate :: "Env \<Rightarrow> int io" where
  "newDate E w = (Inr (clock E (ticks w)), w\<lparr>ticks := ticks w + 1\<rparr>)"

definition fetch :: "Env \<Rightarrow> Request \<Rightarrow> (bool \<times> Body) io" where
  "fetch E req w =
     (let w1 = w\<lparr>trace := trace w @ [Fetch req]\<rparr>
      in case respond E (trace w) req of
           Rejected \<Rightarrow> (Inl NetworkError, w1)
         | Response ok body \<Rightarrow> (Inr (ok, body), w1))"

definition delay :: "nat \<Rightarrow> unit io" where
  "delay ms w = (Inr (), w\<lparr>trace := trace w @ [Delay ms]\<rparr>)"

section \<open>Number.prototype.toString\<close>

fun digits :: "nat \<Rightarrow> string" where
  "digits n = (if n < 10 then [''0123456789'' ! n]
               else digits (n div 10) @ [''0123456789'' ! (n mod 10)])"

declare digits.simps [simp del]

definition toString :: "int \<Rightarrow> string" where
  "toString i = (if i < 0 then CHR ''-'' # digits (nat (- i)) else digits (nat i))"

section \<open>The local store (lib/offline-db.ts)\<close>

definition addToSyncQueue :: "Env \<Rightarrow> Action \<Rightarrow> TableName \<Rightarrow> string \<Rightarrow> Payload \<Rightarrow> unit io" where
  "addToSyncQueue E a t rid d =
     await (newDate E) (\<lambda>now.
       storeOp E (\<lambda>w.
         case tadd \<lparr>action = a, table = t, recordId = rid, data = d,
                    timestamp = now, retryCount = 0\<rparr> (syncQueue w)
         of (k, q) \<Rightarrow> ((), w\<lparr>syncQueue := q\<rparr>)))"

definition addTimeEntry :: "Env \<Rightarrow> NewTimeEntry \<Rightarrow> int io" where
  "addTimeEntry E entry =
     await (newDate E) (\<lambda>now.
       let offlineEntry = \<lparr>userId = n_userId entry, date = n_date entry,
             timeStarted = n_timeStarted entry, timeEnded = n_timeEnded entry,
             hoursWorked = n_hoursWorked entry, studies = n_studies entry,
             participated = n_participated entry, comments = n_comments entry,
             synced = False, createdAt = now, updatedAt = now\<rparr>
       in await (storeOp E (\<lambda>w. case tadd offlineEntry (timeEntries w)
                                 of (k, t) \<Rightarrow> (k, w\<lparr>timeEntries := t\<rparr>)))
            (\<lambda>k. await (addToSyncQueue E Create TimeEntryTable (toString k)
                          (FullEntry offlineEntry))
                    (\<lambda>u. ret k)))"

definition applyPartial :: "PartialTimeEntry \<Rightarrow> OfflineTimeEntry \<Rightarrow> OfflineTimeEntry" where
  "applyPartial p e =
     \<lparr>userId = (case p_userId p of None \<Rightarrow> userId e | Some v \<Rightarrow> v),
      date = (case p_date p of None \<Rightarrow> date e | Some v \<Rightarrow> v),
      timeStarted = (case p_timeStarted p of None \<Rightarrow> timeStarted e | Some v \<Rightarrow> v),
      timeEnded = (case p_timeEnded p of None \<Rightarrow> timeEnded e | Some v \<Rightarrow> v),
      hoursWorked = (case p_hoursWorked p of None \<Rightarrow> hoursWorked e | Some v \<Rightarrow> v),
      studies = (case p_studies p of None \<Rightarrow> studies e | Some v \<Rightarrow> v),
      participated = (case p_participated p of None \<Rightarrow> participated e | Some v \<Rightarrow> v),
      comments = (case p_comments p of None \<Rightarrow> comments e | Some v \<Rightarrow> v),
      synced = (case p_synced p of None \<Rightarrow> synced e | Some v \<Rightarrow> v),
      createdAt = (case p_createdAt p of None \<Rightarrow> createdAt e | Some v \<Rightarrow> v),
      updatedAt = (case p_updatedAt p of None \<Rightarrow> updatedAt e | Some v \<Rightarrow> v)\<rparr>"

definition updateTimeEntry :: "Env \<Rightarrow> int \<Rightarrow> PartialTimeEntry \<Rightarrow> unit io" where
  "updateTimeEntry E k updates =
     await (newDate E) (\<lambda>now.
       let updatedEntry = updates\<lparr>p_synced := Some False, p_updatedAt := Some now\<rparr>
       in await (storeOp E (\<lambda>w.
                   ((), w\<lparr>timeEntries := tupdate k (applyPartial updatedEntry) (timeEntries w)\<rparr>)))
            (\<lambda>u. addToSyncQueue E Update TimeEntryTable (toString k)
                    (PartialEntry updatedEntry)))"

definition deleteTimeEntry :: "Env \<Rightarrow> int \<Rightarrow> unit io" where
  "deleteTimeEntry E k =
     await (storeOp E (\<lambda>w. ((), w\<lparr>timeEntries := tdelete k (timeEntries w)\<rparr>)))
       (\<lambda>u. addToSyncQueue E Delete TimeEntryTable (toString k) (IdOnly k))"

text \<open>\<open>orderBy("timestamp")\<close>: by the indexed timestamp, equal timestamps in key order.\<close>

definition getPendingSyncItems :: "Env \<Rightarrow> (int \<times> SyncQueueItem) list io" where
  "getPendingSyncItems E =
     storeOp E (\<lambda>w. (sort_key (\<lambda>(k, item). timestamp item) (rows (syncQueue w)), w))"

definition markSyncItemCompleted :: "Env \<Rightarrow> int \<Rightarrow> unit io" where
  "markSyncItemCompleted E k =
     storeOp E (\<lambda>w. ((), w\<lparr>syncQueue := tdelete k (syncQueue w)\<rparr>))"

definition incrementSyncRetry :: "Env \<Rightarrow> int \<Rightarrow> unit io" where
  "incrementSyncRetry E k =
     await (storeOp E (\<lambda>w. (tget k (syncQueue w), w))) (\<lambda>found.
       case found of
         Some item \<Rightarrow>
           storeOp E (\<lambda>w. ((), w\<lparr>syncQueue :=
             tupdate k (\<lambda>i. i\<lparr>retryCount := retryCount item + 1\<rparr>) (syncQueue w)\<rparr>))
       | None \<Rightarrow> ret ())"

definition clearSyncQueue :: "Env \<Rightarrow> unit io" where
  "clearSyncQueue E = storeOp E (\<lambda>w. ((), w\<lparr>syncQueue := (syncQueue w)\<lparr>rows := []\<rparr>\<rparr>))"

definition markEntrySynced :: "Env \<Rightarrow> int \<Rightarrow> unit io" where
  "markEntrySynced E k =
     storeOp E (\<lambda>w. ((), w\<lparr>timeEntries := tupdate k (\<lambda>e. e\<lparr>synced := True\<rparr>) (timeEntries w)\<rparr>))"

definition getUnsyncedEntries :: "Env \<Rightarrow> string \<Rightarrow> (int \<times> OfflineTimeEntry) list io" where
  "getUnsyncedEntries E uid =
     storeOp E (\<lambda>w.
       (filter (\<lambda>(k, entry). userId entry = uid \<and> \<not> synced entry) (rows (timeEntries w)), w))"

definition updateLastSyncTime :: "Env \<Rightarrow> string \<Rightarrow> unit io" where
  "updateLastSyncTime E uid =
     await (storeOp E (\<lambda>w. (find (\<lambda>(k, u). email u = uid) (rows (users w)), w))) (\<lambda>user.
       case user of
         Some (k, u) \<Rightarrow>
           await (newDate E) (\<lambda>now.
             storeOp E (\<lambda>w. ((), w\<lparr>users := tupdate k (\<lambda>u. u\<lparr>lastSync := now\<rparr>) (users w)\<rparr>)))
       | None \<Rightarrow> ret ())"

section \<open>The synchronization engine (lib/sync-service.ts)\<close>

text \<open>
  Console output is not modelled. The remote calls and the delays are recorded, in order,
  in the trace of the state. A remote call always settles: it is rejected, or it gives a
  response.
\<close>

definition maxRetries :: nat where
  "maxRetries = 3"

definition retryDelay :: nat where
  "retryDelay = 1000"

definition isOfflineTimeEntry :: "Payload \<Rightarrow> bool" where
  "isOfflineTimeEntry d =
     (case d of
        FullEntry e \<Rightarrow> True
      | PartialEntry p \<Rightarrow>
          p_userId p \<noteq> None \<and> p_date p \<noteq> None \<and> p_timeStarted p \<noteq> None \<and>
          p_timeEnded p \<noteq> None \<and> p_hoursWorked p \<noteq> None \<and> p_studies p \<noteq> None \<and>
          p_participated p \<noteq> None
      | IdOnly k \<Rightarrow> False)"

text \<open>The members of the payload that the request body reads.\<close>

definition bodyOf :: "Payload \<Rightarrow> EntryBody" where
  "bodyOf d =
     (case d of
        FullEntry e \<Rightarrow>
          \<lparr>b_date = Some (date e), b_timeStarted = Some (timeStarted e),
           b_timeEnded = Some (timeEnded e), b_studies = Some (studies e),
           b_participated = Some (participated e), b_comments = comments e\<rparr>
      | PartialEntry p \<Rightarrow>
          \<lparr>b_date = p_date p, b_timeStarted = p_timeStarted p, b_timeEnded = p_timeEnded p,
           b_studies = p_studies p, b_participated = p_participated p,
           b_comments = (case p_comments p of None \<Rightarrow> None | Some c \<Rightarrow> c)\<rparr>
      | IdOnly k \<Rightarrow>
          \<lparr>b_date = None, b_timeStarted = None, b_timeEnded = None, b_studies = None,
           b_participated = None, b_comments = None\<rparr>)"

text \<open>
  The three calls of the remote gateway: a response that is not \<open>ok\<close> is thrown as an
  error, and so is a body that does not parse.
\<close>

definition checkResponse :: "bool \<times> Body \<Rightarrow> unit io" where
  "checkResponse r =
     (case r of
        (ok, BadJson) \<Rightarrow> throw ParseError
      | (ok, Json b) \<Rightarrow> if \<not> ok then throw HttpError else ret ())"

definition createTimeEntryOnServer :: "Env \<Rightarrow> Payload \<Rightarrow> unit io" where
  "createTimeEntryOnServer E d = await (fetch E (PostTimeEntry (bodyOf d))) checkResponse"

definition updateTimeEntryOnServer :: "Env \<Rightarrow> string \<Rightarrow> Payload \<Rightarrow> unit io" where
  "updateTimeEntryOnServer E rid d = await (fetch E (PutTimeEntry rid (bodyOf d))) checkResponse"

definition deleteTimeEntryOnServer :: "Env \<Rightarrow> string \<Rightarrow> unit io" where
  "deleteTimeEntryOnServer E rid = await (fetch E (DeleteTimeEntry rid)) checkResponse"

definition syncTimeEntry :: "Env \<Rightarrow> SyncQueueItem \<Rightarrow> unit io" where
  "syncTimeEntry E item =
     (case action item of
        Create \<Rightarrow>
          if \<not> isOfflineTimeEntry (data item) then throw InvalidData
          else createTimeEntryOnServer E (data item)
      | Update \<Rightarrow> updateTimeEntryOnServer E (recordId item) (data item)
      | Delete \<Rightarrow> deleteTimeEntryOnServer E (recordId item))"

definition syncItem :: "Env \<Rightarrow> SyncQueueItem \<Rightarrow> unit io" where
  "syncItem E item =
     (case table item of
        TimeEntryTable \<Rightarrow> syncTimeEntry E item
      | UserTable \<Rightarrow> throw UnknownTable)"

definition getSyncStatus :: "World \<Rightarrow> SyncStatus" where
  "getSyncStatus w = \<lparr>st_syncInProgress = syncInProgress w, st_isOnline = onLine w\<rparr>"

text \<open>
  Each \<open>await\<close> in the body of \<open>syncPendingData\<close> suspends the pass: until the awaited
  operation settles, other callbacks run (the periodic timer, a manual trigger, a status
  display), and they see the flag as it is at that moment. The pass itself never reads the
  flag again, so this is the only way in which the flag of a running pass shows.
  \<open>suspended m\<close> is the operation \<open>m\<close> awaited at such a point: a status poll made while it
  is pending reads \<open>getSyncStatus\<close>, and \<open>polled\<close> appends its answer to \<open>statusLog\<close>.
\<close>

definition polled :: "World \<Rightarrow> World" where
  "polled w = w\<lparr>statusLog := statusLog w @ [getSyncStatus w]\<rparr>"

definition suspended :: "'a io \<Rightarrow> 'a io" where
  "suspended m w = m (polled w)"

text \<open>The body of the loop of \<open>syncPendingData\<close>, for one item of the snapshot.\<close>

definition processItem :: "Env \<Rightarrow> int \<times> SyncQueueItem \<Rightarrow> unit io" where
  "processItem E ki =
     (case ki of (k, item) \<Rightarrow>
        if retryCount item \<ge> maxRetries then suspended (markSyncItemCompleted E k)
        else catch (await (suspended (syncItem E item))
                      (\<lambda>u. suspended (markSyncItemCompleted E k)))
               (\<lambda>err. await (suspended (incrementSyncRetry E k))
                        (\<lambda>u. suspended (delay (retryDelay * (retryCount item + 1))))))"

definition syncPendingData :: "Env \<Rightarrow> bool io" where
  "syncPendingData E w =
     (if syncInProgress w then (Inr False, w)
      else case catch (await (suspended (getPendingSyncItems E))
                         (\<lambda>pendingItems. await (forEach pendingItems (processItem E))
                                           (\<lambda>u. ret True)))
                  (\<lambda>err. ret False) (w\<lparr>syncInProgress := True\<rparr>)
           of (r, w1) \<Rightarrow> (r, w1\<lparr>syncInProgress := False\<rparr>))"

definition forcSync :: "Env \<Rightarrow> bool io" where
  "forcSync E = syncPendingData E"

definition triggerSync :: "Env \<Rightarrow> bool io" where
  "triggerSync E = forcSync E"

definition clearPendingData :: "Env \<Rightarrow> unit io" where
  "clearPendingData E = clearSyncQueue E"

subsection \<open>Bulk download\<close>

definition toOfflineEntry :: "string \<Rightarrow> ServerTimeEntry \<Rightarrow> OfflineTimeEntry" where
  "toOfflineEntry uid entry =
     \<lparr>userId = uid, date = se_date entry, timeStarted = se_timeStarted entry,
      timeEnded = se_timeEnded entry, hoursWorked = se_hoursWorked entry,
      studies = map participant (se_studies entry), participated = se_participated entry,
      comments = se_comments entry, synced = True,
      createdAt = se_createdAt entry, updatedAt = se_updatedAt entry\<rparr>"

text \<open>The body of the inner loop of \<open>downloadServerData\<close>, for one server entry.\<close>

definition storeServerEntry :: "Env \<Rightarrow> string \<Rightarrow> ServerTimeEntry \<Rightarrow> unit io" where
  "storeServerEntry E uid entry =
     (let offlineEntry = toOfflineEntry uid entry
      in await (storeOp E (\<lambda>w.
                  (find (\<lambda>(k, e). userId e = uid \<and> date e = date offlineEntry \<and>
                                  timeStarted e = timeStarted offlineEntry)
                     (rows (timeEntries w)), w)))
           (\<lambda>existing.
              case existing of
                None \<Rightarrow> storeOp E (\<lambda>w. case tadd offlineEntry (timeEntries w)
                                         of (k, t) \<Rightarrow> ((), w\<lparr>timeEntries := t\<rparr>))
              | Some e \<Rightarrow> ret ()))"

text \<open>The body of the outer loop, for the month \<open>i\<close> months before the current one.\<close>

definition downloadMonth :: "Env \<Rightarrow> string \<Rightarrow> int \<Rightarrow> int \<Rightarrow> int \<Rightarrow> unit io" where
  "downloadMonth E uid year month i =
     (let targetDate = mkDate E year (month - 1 - i) 1 0 0 0;
          targetYear = getFullYear E targetDate;
          targetMonth = getMonth E targetDate + 1
      in await (fetch E (GetMonthly targetYear targetMonth)) (\<lambda>response.
           case response of
             (ok, body) \<Rightarrow>
               if ok then
                 (case body of
                    BadJson \<Rightarrow> throw ParseError
                  | Json entries \<Rightarrow>
                      forEach (case entries of None \<Rightarrow> [] | Some es \<Rightarrow> es)
                        (storeServerEntry E uid))
               else ret ()))"

definition downloadServerData :: "Env \<Rightarrow> string \<Rightarrow> unit io" where
  "downloadServerData E uid w =
     (if \<not> onLine w then throw OfflineError w
      else await (newDate E) (\<lambda>now.
             let year = getFullYear E now; month = getMonth E now + 1
             in await (forEach [0, 1, 2] (downloadMonth E uid year month))
                  (\<lambda>u. updateLastSyncTime E uid)) w)"

subsection \<open>Conflicts\<close>


definition getConflicts :: "Env \<Rightarrow> string \<Rightarrow> (int \<times> OfflineTimeEntry) list io" where
  "getConflicts E uid =
     await (getUnsyncedEntries E uid) (\<lambda>unsyncedEntries.
       ret (filter (\<lambda>(k, entry). updatedAt entry > createdAt entry) unsyncedEntries))"



section \<open>Sequences of calls, and a concrete environment\<close>

definition noStoreFailure :: "Env \<Rightarrow> bool" where
  "noStoreFailure E = (\<forall>n. \<not> storeFails E n)"

text \<open>A call of one of the three mutating operations of the local store.\<close>

datatype Mutation = AddEntry NewTimeEntry | UpdateEntry int PartialTimeEntry | DeleteEntry int

definition mutate :: "Env \<Rightarrow> Mutation \<Rightarrow> unit io" where
  "mutate E m =
     (case m of
        AddEntry entry \<Rightarrow> await (addTimeEntry E entry) (\<lambda>k. ret ())
      | UpdateEntry k updates \<Rightarrow> updateTimeEntry E k updates
      | DeleteEntry k \<Rightarrow> deleteTimeEntry E k)"

definition runMutations :: "Env \<Rightarrow> Mutation list \<Rightarrow> unit io" where
  "runMutations E ms = forEach ms (mutate E)"

text \<open>
  What the specification expects in the queue for a sequence of calls: one entry per call,
  with its action, table, record identifier as a string, and retry counter 0. \<open>nk\<close> is the
  key that the next added time entry gets.
\<close>

fun expectedQueue :: "int \<Rightarrow> Mutation list \<Rightarrow> (Action \<times> TableName \<times> string \<times> nat) list" where
  "expectedQueue nk [] = []"
| "expectedQueue nk (AddEntry entry # ms) =
     (Create, TimeEntryTable, toString nk, 0) # expectedQueue (nk + 1) ms"
| "expectedQueue nk (UpdateEntry k updates # ms) =
     (Update, TimeEntryTable, toString k, 0) # expectedQueue nk ms"
| "expectedQueue nk (DeleteEntry k # ms) =
     (Delete, TimeEntryTable, toString k, 0) # expectedQueue nk ms"

text \<open>
  A concrete environment for the examples: no storage failure, a clock that advances by a
  second per reading, a remote service that accepts everything, and the calendar of
  \<open>Date\<close> in the UTC time zone.
\<close>

definition daysFromCivil :: "int \<Rightarrow> int \<Rightarrow> int" where
  "daysFromCivil y m =
     (let y' = (if m \<le> 2 then y - 1 else y);
          era = y' div 400;
          yoe = y' - era * 400;
          doy = (153 * (if m > 2 then m - 3 else m + 9) + 2) div 5;
          doe = yoe * 365 + yoe div 4 - yoe div 100 + doy
      in era * 146097 + doe - 719468)"

definition utcDate :: "int \<Rightarrow> int \<Rightarrow> int \<Rightarrow> int \<Rightarrow> int \<Rightarrow> int \<Rightarrow> int" where
  "utcDate year monthIndex day h mi s =
     (let y = (if 0 \<le> year \<and> year \<le> 99 then 1900 + year else year)
      in ((daysFromCivil (y + monthIndex div 12) (monthIndex mod 12 + 1) + (day - 1)) * 86400
            + h * 3600 + mi * 60 + s) * 1000)"

definition civilFromDays :: "int \<Rightarrow> int \<times> int" where
  "civilFromDays z0 =
     (let z = z0 + 719468;
          era = z div 146097;
          doe = z - era * 146097;
          yoe = (doe - doe div 1460 + doe div 36524 - doe div 146096) div 365;
          doy = doe - (365 * yoe + yoe div 4 - yoe div 100);
          mp = (5 * doy + 2) div 153;
          m = (if mp < 10 then mp + 3 else mp - 9)
      in (yoe + era * 400 + (if m \<le> 2 then 1 else 0), m))"

definition utcFullYear :: "int \<Rightarrow> int" where
  "utcFullYear t = fst (civilFromDays (t div 86400000))"

definition utcMonth :: "int \<Rightarrow> int" where
  "utcMonth t = snd (civilFromDays (t div 86400000)) - 1"

definition exampleEnv :: Env where
  "exampleEnv =
     \<lparr>storeFails = (\<lambda>n. False),
      clock = (\<lambda>n. 1718000000000 + 1000 * int n),
      respond = (\<lambda>history req. Response True (Json None)),
      mkDate = utcDate, getFullYear = utcFullYear, getMonth = utcMonth\<rparr>"

definition emptyWorld :: World where
  "emptyWorld =
     \<lparr>timeEntries = emptyTable, users = emptyTable, syncQueue = emptyTable,
      syncInProgress = False, onLine = True, trace = [], storeOps = 0, ticks = 0,
      statusLog = []\<rparr>"

definition visit :: NewTimeEntry where
  "visit =
     \<lparr>n_userId = ''u1'', n_date = 1717977600000, n_timeStarted = 1718010000000,
      n_timeEnded = 1718022600000, n_hoursWorked = 7 / 2, n_studies = [''Alice''],
      n_participated = True, n_comments = None\<rparr>"

definition noChanges :: PartialTimeEntry where
  "noChanges =
     \<lparr>p_userId = None, p_date = None, p_timeStarted = None, p_timeEnded = None,
      p_hoursWorked = None, p_studies = None, p_participated = None, p_comments = None,
      p_synced = None, p_createdAt = None, p_updatedAt = None\<rparr>"

section \<open>A drain pass, item by item\<close>

text \<open>The snapshot that a pass begun in \<open>w\<close> reads from the queue.\<close>

definition passItems :: "World \<Rightarrow> (int \<times> SyncQueueItem) list" where
  "passItems w = sort_key (\<lambda>(k, item). timestamp item) (rows (syncQueue w))"

text \<open>
  The state of a pass begun in the idle state \<open>w\<close> when the first \<open>n\<close> items of its
  snapshot have been processed: the flag is set, the queue has been read, and the loop
  body has run \<open>n\<close> times.
\<close>

definition passState :: "Env \<Rightarrow> World \<Rightarrow> nat \<Rightarrow> World" where
  "passState E w n =
     snd (forEach (take n (passItems w)) (processItem E)
            (snd (suspended (getPendingSyncItems E) (w\<lparr>syncInProgress := True\<rparr>))))"

text \<open>
  What a pass may change between two of its states: not the time entries, the users, the
  flag or the connectivity; the count of storage operations does not go down; the status
  polls made in between all read the flag as it was; and an entry that is in the queue
  afterwards was there before, with a retry counter that was not larger.
\<close>

definition drainFrame :: "World \<Rightarrow> World \<Rightarrow> bool" where
  "drainFrame w w' =
     (timeEntries w' = timeEntries w \<and> users w' = users w \<and>
      syncInProgress w' = syncInProgress w \<and> onLine w' = onLine w \<and>
      storeOps w \<le> storeOps w' \<and>
      (\<exists>polls. statusLog w' = statusLog w @ polls \<and>
         list_all (\<lambda>s. st_syncInProgress s = syncInProgress w) polls) \<and>
      (\<forall>k q'. tget k (syncQueue w') = Some q' \<longrightarrow>
         (\<exists>q. tget k (syncQueue w) = Some q \<and> retryCount q \<le> retryCount q')))"

definition storedEntry :: OfflineTimeEntry where
  "storedEntry =
     \<lparr>userId = ''u1'', date = 1717977600000, timeStarted = 1718010000000,
      timeEnded = 1718022600000, hoursWorked = 7 / 2, studies = [''Alice''],
      participated = True, comments = None, synced = False,
      createdAt = 1718000000000, updatedAt = 1718000500000\<rparr>"

text \<open>
  A state with one time entry and two pending queue entries: an update of record 1 that has
  used up its retries, and a fresh delete of record 7.
\<close>

definition staleItem :: SyncQueueItem where
  "staleItem =
     \<lparr>action = Update, table = TimeEntryTable, recordId = ''1'',
      data = PartialEntry noChanges, timestamp = 1718000600000, retryCount = 3\<rparr>"

definition freshItem :: SyncQueueItem where
  "freshItem =
     \<lparr>action = Delete, table = TimeEntryTable, recordId = ''7'',
      data = IdOnly 7, timestamp = 1718000700000, retryCount = 0\<rparr>"

definition staleWorld :: World where
  "staleWorld =
     \<lparr>timeEntries = \<lparr>rows = [(1, storedEntry)], nextKey = 2\<rparr>,
      users = emptyTable,
      syncQueue = \<lparr>rows = [(1, staleItem), (2, freshItem)], nextKey = 3\<rparr>,
      syncInProgress = False, onLine = True, trace = [], storeOps = 0, ticks = 0,
      statusLog = []\<rparr>"

text \<open>An environment whose remote service cannot be reached.\<close>

definition unreachableEnv :: Env where
  "unreachableEnv = exampleEnv\<lparr>respond := (\<lambda>history req. Rejected)\<rparr>"

text \<open>An environment in which the second storage operation fails.\<close>

definition failingStoreEnv :: Env where
  "failingStoreEnv = exampleEnv\<lparr>storeFails := (\<lambda>n. n = 1)\<rparr>"

section \<open>Bulk download, month by month\<close>

text \<open>
  The duplicate check of the download: some local entry has the same owner, the same date
  and the same start.
\<close>

definition existsLocally :: "string \<Rightarrow> ServerTimeEntry \<Rightarrow> World \<Rightarrow> bool" where
  "existsLocally uid entry w =
     list_ex (\<lambda>(k, e). userId e = uid \<and> date e = se_date entry \<and>
                       timeStarted e = se_timeStarted entry)
       (rows (timeEntries w))"

text \<open>
  What a download may change between two of its states before the last-sync update: not
  the sync queue and not the users; time entries are only appended.
\<close>

definition downloadFrame :: "World \<Rightarrow> World \<Rightarrow> bool" where
  "downloadFrame w w' =
     (syncQueue w' = syncQueue w \<and> users w' = users w \<and>
      (\<exists>new. rows (timeEntries w') = rows (timeEntries w) @ new))"

text \<open>The year and month (1 to 12) that a download begun in \<open>w\<close> reads from the clock.\<close>

definition currentYear :: "Env \<Rightarrow> World \<Rightarrow> int" where
  "currentYear E w = getFullYear E (clock E (ticks w))"

definition currentMonth :: "Env \<Rightarrow> World \<Rightarrow> int" where
  "currentMonth E w = getMonth E (clock E (ticks w)) + 1"

text \<open>
  The outcome of the outer loop of a download begun in \<open>w\<close>, cut after its first \<open>i\<close>
  months: the result so far and the state.
\<close>

definition monthsDone :: "Env \<Rightarrow> string \<Rightarrow> World \<Rightarrow> nat \<Rightarrow> (error + unit) \<times> World" where
  "monthsDone E uid w i =
     forEach (take i [0, 1, 2]) (downloadMonth E uid (currentYear E w) (currentMonth E w))
       (snd (newDate E w))"

text \<open>
  Examples: an entry as the server sends it, a state with a cached user, a remote service
  that answers every request with an error status, and one that serves June 2024 and is
  unreachable afterwards.
\<close>

definition serverVisit :: ServerTimeEntry where
  "serverVisit =
     \<lparr>se_id = ''srv-1'', se_date = 1717977600000, se_timeStarted = 1718010000000,
      se_timeEnded = 1718022600000, se_hoursWorked = 7 / 2,
      se_studies = [\<lparr>s_id = ''st-1'', participant = ''Alice''\<rparr>],
      se_participated = True, se_comments = None,
      se_createdAt = 1718023000000, se_updatedAt = 1718023000000\<rparr>"

definition cachedWorld :: World where
  "cachedWorld =
     emptyWorld\<lparr>users :=
       \<lparr>rows = [(1, \<lparr>email = ''ann@example.org'', name = None, lastSync = 1700000000000\<rparr>)],
        nextKey = 2\<rparr>\<rparr>"



text \<open>The request that the download sends for the month \<open>i\<close> months back.\<close>

definition monthRequest :: "Env \<Rightarrow> int \<Rightarrow> int \<Rightarrow> int \<Rightarrow> Request" where
  "monthRequest E year month i =
     (let targetDate = mkDate E year (month - 1 - i) 1 0 0 0
      in GetMonthly (getFullYear E targetDate) (getMonth E targetDate + 1))"


text \<open>
  What the specification says of the server entries of a download, one after the other: an
  entry that is already there, with the same owner, date and start, is skipped; for any
  other a new record is appended, derived from the server entry, with \<open>synced\<close> = true.
\<close>

fun mergeEntries ::
  "string \<Rightarrow> ServerTimeEntry list \<Rightarrow> OfflineTimeEntry Table \<Rightarrow> OfflineTimeEntry Table" where
  "mergeEntries uid [] t = t"
| "mergeEntries uid (entry # es) t =
     mergeEntries uid es
       (if list_ex (\<lambda>(k, e). userId e = uid \<and> date e = se_date entry \<and>
                             timeStarted e = se_timeStarted entry) (rows t)
        then t
        else \<lparr>rows = rows t @
                [(nextKey t,
                  \<lparr>userId = uid, date = se_date entry, timeStarted = se_timeStarted entry,
                   timeEnded = se_timeEnded entry, hoursWorked = se_hoursWorked entry,
                   studies = map participant (se_studies entry),
                   participated = se_participated entry, comments = se_comments entry,
                   synced = True, createdAt = se_createdAt entry,
                   updatedAt = se_updatedAt entry\<rparr>)],
              nextKey = nextKey t + 1\<rparr>)"

text \<open>
  The entries that a month's response contributes: none when the response is not ok or has
  no \<open>entries\<close> member; \<open>None\<close> when the fetch is rejected or the body does not parse.
\<close>

definition monthEntries :: "FetchResult \<Rightarrow> ServerTimeEntry list option" where
  "monthEntries res =
     (case res of
        Rejected \<Rightarrow> None
      | Response ok body \<Rightarrow>
          if \<not> ok then Some []
          else (case body of
                  BadJson \<Rightarrow> None
                | Json None \<Rightarrow> Some []
                | Json (Some es) \<Rightarrow> Some es))"

text \<open>The three requests of a download begun in \<open>w\<close>, in the order in which they are sent.\<close>

definition downloadRequests :: "Env \<Rightarrow> World \<Rightarrow> Request list" where
  "downloadRequests E w =
     map (monthRequest E (currentYear E w) (currentMonth E w)) [0, 1, 2]"

text \<open>A remote service that returns the same entry twice for June 2024, and nothing else.\<close>

definition servingEnv :: Env where
  "servingEnv =
     exampleEnv\<lparr>respond := (\<lambda>history req.
       if req = GetMonthly 2024 6 then Response True (Json (Some [serverVisit, serverVisit]))
       else Response True (Json None))\<rparr>"

section \<open>Properties of the tables and of the local store\<close>

lemmas io_defs = ret_def throw_def await_def catch_def storeOp_def newDate_def fetch_def delay_def

lemma map_of_update_rows:
  "map_of (map (\<lambda>(k', x). if k' = k then (k', f x) else (k', x)) xs) k' =
     (if k' = k then map_option f (map_of xs k) else map_of xs k')"
  by (induction xs) auto

lemma map_of_delete_rows:
  "map_of (filter (\<lambda>(k', x). k' \<noteq> k) xs) k' = (if k' = k then None else map_of xs k')"
  by (induction xs) auto

lemma update_rows_missing:
  "map_of xs k = None \<Longrightarrow> map (\<lambda>(k', x). if k' = k then (k', f x) else (k', x)) xs = xs"
  by (induction xs) (auto split: if_splits)

lemma tget_tupdate:
  "tget k' (tupdate k f t) = (if k' = k then map_option f (tget k t) else tget k' t)"
  by (simp add: tget_def tupdate_def map_of_update_rows)

lemma tget_tdelete: "tget k' (tdelete k t) = (if k' = k then None else tget k' t)"
  by (simp add: tget_def tdelete_def map_of_delete_rows)

lemma tupdate_missing: "tget k t = None \<Longrightarrow> tupdate k f t = t"
  by (simp add: tget_def tupdate_def update_rows_missing)

lemma tupdate_keys: "map fst (rows (tupdate k f t)) = map fst (rows t)"
  by (simp add: tupdate_def case_prod_beta comp_def)

text \<open>The operations keep the keys of a table distinct and below the key generator.\<close>

lemma wfTable_emptyTable: "wfTable emptyTable"
  by (simp add: wfTable_def emptyTable_def)

lemma wfTable_tadd: "wfTable t \<Longrightarrow> wfTable (snd (tadd x t))"
  by (fastforce simp: wfTable_def tadd_def list_all_iff)

lemma wfTable_tupdate:
  assumes "wfTable t"
  shows "wfTable (tupdate k f t)"
proof -
  have "distinct (map fst (rows (tupdate k f t)))"
    using assms by (simp add: tupdate_keys wfTable_def)
  moreover have "list_all (\<lambda>(k', x). k' < nextKey (tupdate k f t)) (rows (tupdate k f t))"
    using assms by (auto simp: wfTable_def tupdate_def list_all_iff split: if_splits)
  ultimately show ?thesis
    by (simp add: wfTable_def)
qed

lemma wfTable_tdelete: "wfTable t \<Longrightarrow> wfTable (tdelete k t)"
  by (auto simp: wfTable_def tdelete_def list_all_iff distinct_map_filter)

lemma addToSyncQueue_run:
  "addToSyncQueue E a t rid d w =
     (if storeFails E (storeOps w)
      then (Inl StorageError, w\<lparr>ticks := ticks w + 1, storeOps := storeOps w + 1\<rparr>)
      else (Inr (), w\<lparr>ticks := ticks w + 1, storeOps := storeOps w + 1,
              syncQueue := \<lparr>rows = rows (syncQueue w) @
                  [(nextKey (syncQueue w),
                    \<lparr>action = a, table = t, recordId = rid, data = d,
                     timestamp = clock E (ticks w), retryCount = 0\<rparr>)],
                nextKey = nextKey (syncQueue w) + 1\<rparr>\<rparr>))"
  by (simp add: addToSyncQueue_def io_defs tadd_def Let_def)

lemma mutate_queue:
  assumes "mutate E m w = (Inr (), w1)"
  shows "\<exists>q. rows (syncQueue w1) = rows (syncQueue w) @ [q] \<and>
             [(action (snd q), table (snd q), recordId (snd q), retryCount (snd q))] =
               expectedQueue (nextKey (timeEntries w)) [m] \<and>
             nextKey (timeEntries w1) =
               (case m of AddEntry e \<Rightarrow> nextKey (timeEntries w) + 1 | _ \<Rightarrow> nextKey (timeEntries w))"
  using assms
  by (cases m)
     (auto simp: mutate_def addTimeEntry_def updateTimeEntry_def deleteTimeEntry_def
        addToSyncQueue_run io_defs Let_def tadd_def tupdate_def tdelete_def split: if_splits)

lemma mutate_total: "noStoreFailure E \<Longrightarrow> fst (mutate E m w) = Inr ()"
  by (cases m)
     (auto simp: mutate_def addTimeEntry_def updateTimeEntry_def deleteTimeEntry_def
        addToSyncQueue_run io_defs Let_def tadd_def noStoreFailure_def)

lemma expectedQueue_Cons:
  "expectedQueue nk (m # ms) =
     expectedQueue nk [m] @ expectedQueue (case m of AddEntry e \<Rightarrow> nk + 1 | _ \<Rightarrow> nk) ms"
  by (cases m) auto

lemma runMutations_queue:
  "runMutations E ms w = (Inr (), w') \<Longrightarrow>
     \<exists>new. rows (syncQueue w') = rows (syncQueue w) @ new \<and> length new = length ms \<and>
       map (\<lambda>(k, q). (action q, table q, recordId q, retryCount q)) new =
         expectedQueue (nextKey (timeEntries w)) ms"
proof (induction ms arbitrary: w)
  case Nil
  then show ?case by (simp add: runMutations_def)
next
  case (Cons m ms)
  from Cons.prems obtain w1 where step: "mutate E m w = (Inr (), w1)"
    and rest: "runMutations E ms w1 = (Inr (), w')"
    by (auto simp: runMutations_def split: prod.splits sum.splits)
  from mutate_queue [OF step] obtain q where
    q: "rows (syncQueue w1) = rows (syncQueue w) @ [q]"
       "[(action (snd q), table (snd q), recordId (snd q), retryCount (snd q))] =
          expectedQueue (nextKey (timeEntries w)) [m]"
       "nextKey (timeEntries w1) =
          (case m of AddEntry e \<Rightarrow> nextKey (timeEntries w) + 1 | _ \<Rightarrow> nextKey (timeEntries w))"
    by blast
  from Cons.IH [OF rest] obtain new where
    new: "rows (syncQueue w') = rows (syncQueue w1) @ new" "length new = length ms"
         "map (\<lambda>(k, q). (action q, table q, recordId q, retryCount q)) new =
            expectedQueue (nextKey (timeEntries w1)) ms"
    by blast
  have "rows (syncQueue w') = rows (syncQueue w) @ (q # new)"
    using q(1) new(1) by simp
  moreover have "length (q # new) = length (m # ms)"
    using new(2) by simp
  moreover have "map (\<lambda>(k, q). (action q, table q, recordId q, retryCount q)) (q # new) =
      expectedQueue (nextKey (timeEntries w)) (m # ms)"
    using q(2) q(3) new(3) by (subst expectedQueue_Cons) (simp add: case_prod_beta)
  ultimately show ?case by blast
qed

lemma runMutations_total: "noStoreFailure E \<Longrightarrow> fst (runMutations E ms w) = Inr ()"
proof (induction ms arbitrary: w)
  case Nil
  then show ?case by (simp add: runMutations_def)
next
  case (Cons m ms)
  obtain r w1 where s: "mutate E m w = (r, w1)" by (cases "mutate E m w")
  with mutate_total [OF Cons.prems, of m w] have "r = Inr ()" by simp
  with s Cons.IH [OF Cons.prems, of w1] show ?case
    by (simp add: runMutations_def)
qed

lemma addTimeEntry_key:
  "addTimeEntry E entry w = (Inr k, w') \<Longrightarrow>
     k = nextKey (timeEntries w) \<and> (\<exists>e. rows (timeEntries w') = rows (timeEntries w) @ [(k, e)])"
  by (auto simp: addTimeEntry_def addToSyncQueue_run io_defs Let_def tadd_def split: if_splits)

lemma noStoreFailure_exampleEnv: "noStoreFailure exampleEnv"
  by (simp add: noStoreFailure_def exampleEnv_def)

section \<open>The mutating operations and the sync queue\<close>

text \<open>
  C1. For every sequence of addTimeEntry, updateTimeEntry and deleteTimeEntry calls on the
  local store, with no drain in between: when the storage engine reports no failure, every
  call returns; and whenever the calls return, the sync queue has grown by exactly one
  entry per call, appended in the order of the calls, each with retryCount 0, the table
  'timeEntry', the action of its call and, as recordId, the string form of the record's
  identifier. So the number of new queue entries is the number of calls. For addTimeEntry
  the identifier is the key under which the new record was stored.
\<close>

theorem mutations_enqueue_one_each:
  "(noStoreFailure E \<longrightarrow> fst (runMutations E ms w) = Inr ()) \<and>
   (\<forall>w'. runMutations E ms w = (Inr (), w') \<longrightarrow>
      (\<exists>new. rows (syncQueue w') = rows (syncQueue w) @ new \<and> length new = length ms \<and>
         map (\<lambda>(k, q). (action q, table q, recordId q, retryCount q)) new =
           expectedQueue (nextKey (timeEntries w)) ms)) \<and>
   (\<forall>entry k w'. addTimeEntry E entry w = (Inr k, w') \<longrightarrow>
      k = nextKey (timeEntries w) \<and>
      (\<exists>e. rows (timeEntries w') = rows (timeEntries w) @ [(k, e)]))"
  using runMutations_total [of E ms w] runMutations_queue [of E ms w] addTimeEntry_key [of E _ w]
  by blast

theorem mutations_enqueue_one_each_witness:
  "noStoreFailure exampleEnv \<and>
   map (\<lambda>(k, q). (action q, table q, recordId q, retryCount q))
     (rows (syncQueue (snd (runMutations exampleEnv
        [AddEntry visit, UpdateEntry 1 noChanges, DeleteEntry 1, UpdateEntry 5 noChanges]
        emptyWorld)))) =
     [(Create, TimeEntryTable, ''1'', 0), (Update, TimeEntryTable, ''1'', 0),
      (Delete, TimeEntryTable, ''1'', 0), (Update, TimeEntryTable, ''5'', 0)]"
proof -
  let ?ms = "[AddEntry visit, UpdateEntry 1 noChanges, DeleteEntry 1, UpdateEntry 5 noChanges]"
  obtain r w' where run: "runMutations exampleEnv ?ms emptyWorld = (r, w')"
    by (cases "runMutations exampleEnv ?ms emptyWorld")
  have "r = Inr ()"
    using mutations_enqueue_one_each [of exampleEnv ?ms emptyWorld] noStoreFailure_exampleEnv run
    by simp
  with run mutations_enqueue_one_each [of exampleEnv ?ms emptyWorld]
  obtain new where "rows (syncQueue w') = rows (syncQueue emptyWorld) @ new"
    "map (\<lambda>(k, q). (action q, table q, recordId q, retryCount q)) new =
       expectedQueue (nextKey (timeEntries emptyWorld)) ?ms"
    by blast
  then show ?thesis
    using run noStoreFailure_exampleEnv
    by (simp add: emptyWorld_def emptyTable_def toString_def digits.simps)
qed

text \<open>
  C7. For every identifier with no time-entry record, updateTimeEntry (with a storage
  engine that reports no failure) does not throw and leaves the timeEntries table as it
  was, and still appends one 'update' entry to the sync queue, whose recordId is the
  string form of the identifier.
\<close>

theorem updateTimeEntry_missing:
  assumes "tget k (timeEntries w) = None" and "noStoreFailure E"
  shows "\<exists>w' q. updateTimeEntry E k updates w = (Inr (), w') \<and>
           timeEntries w' = timeEntries w \<and>
           rows (syncQueue w') = rows (syncQueue w) @ [(nextKey (syncQueue w), q)] \<and>
           action q = Update \<and> table q = TimeEntryTable \<and> recordId q = toString k \<and>
           retryCount q = 0"
  using assms
  by (simp add: updateTimeEntry_def addToSyncQueue_run io_defs Let_def tupdate_missing
        noStoreFailure_def)

theorem updateTimeEntry_missing_witness:
  "tget 5 (timeEntries emptyWorld) = None \<and> noStoreFailure exampleEnv \<and>
   fst (updateTimeEntry exampleEnv 5 noChanges emptyWorld) = Inr () \<and>
   rows (timeEntries (snd (updateTimeEntry exampleEnv 5 noChanges emptyWorld))) = [] \<and>
   map (\<lambda>(k, q). recordId q)
     (rows (syncQueue (snd (updateTimeEntry exampleEnv 5 noChanges emptyWorld)))) = [''5'']"
proof -
  have absent: "tget 5 (timeEntries emptyWorld) = None"
    by (simp add: tget_def emptyWorld_def emptyTable_def)
  from updateTimeEntry_missing [OF absent noStoreFailure_exampleEnv, of noChanges]
  obtain w' q where "updateTimeEntry exampleEnv 5 noChanges emptyWorld = (Inr (), w')"
    "timeEntries w' = timeEntries emptyWorld"
    "rows (syncQueue w') = rows (syncQueue emptyWorld) @ [(nextKey (syncQueue emptyWorld), q)]"
    "recordId q = toString 5"
    by blast
  then show ?thesis
    using absent noStoreFailure_exampleEnv
    by (simp add: emptyWorld_def emptyTable_def toString_def digits.simps)
qed

section \<open>Properties of a drain pass\<close>

lemma forEach_append:
  "forEach (xs @ ys) body w =
     (case forEach xs body w of (Inl e, w1) \<Rightarrow> (Inl e, w1) | (Inr u, w1) \<Rightarrow> forEach ys body w1)"
  by (induction xs arbitrary: w) (auto split: prod.splits sum.splits)

lemma forEach_take_ok:
  "fst (forEach xs body w) = Inr () \<Longrightarrow> fst (forEach (take n xs) body w) = Inr ()"
proof (induction xs arbitrary: n w)
  case Nil
  then show ?case by simp
next
  case (Cons x xs)
  show ?case
  proof (cases n)
    case 0
    then show ?thesis by simp
  next
    case (Suc m)
    with Cons show ?thesis by (auto split: prod.splits sum.splits)
  qed
qed

lemma forEach_step:
  assumes "n < length xs" and "fst (forEach xs body w) = Inr ()"
  shows "body (xs ! n) (snd (forEach (take n xs) body w)) =
           (Inr (), snd (forEach (take (Suc n) xs) body w))"
proof -
  have ok: "fst (forEach (take (Suc n) xs) body w) = Inr ()"
    using assms(2) by (rule forEach_take_ok)
  have "fst (forEach (take n xs) body w) = Inr ()"
    using assms(2) by (rule forEach_take_ok)
  then obtain wn where wn: "forEach (take n xs) body w = (Inr (), wn)"
    by (cases "forEach (take n xs) body w") auto
  have "forEach (take (Suc n) xs) body w = forEach (take n xs @ [xs ! n]) body w"
    using assms(1) by (simp add: take_Suc_conv_app_nth)
  also have "\<dots> = forEach [xs ! n] body wn"
    using wn by (simp add: forEach_append)
  finally have eq: "forEach (take (Suc n) xs) body w = forEach [xs ! n] body wn" .
  with ok wn show ?thesis
    by (auto split: prod.splits sum.splits)
qed

lemma forEach_rest:
  assumes "fst (forEach xs body w) = Inr ()"
  shows "forEach xs body w = forEach (drop n xs) body (snd (forEach (take n xs) body w))"
proof -
  have "fst (forEach (take n xs) body w) = Inr ()"
    using assms by (rule forEach_take_ok)
  then obtain wn where wn: "forEach (take n xs) body w = (Inr (), wn)"
    by (cases "forEach (take n xs) body w") auto
  have "forEach xs body w = forEach (take n xs @ drop n xs) body w" by simp
  also have "\<dots> = forEach (drop n xs) body wn"
    using wn by (simp only: forEach_append) simp
  finally show ?thesis using wn by simp
qed

lemma forEach_invariant:
  assumes "P w" and "\<And>x v. x \<in> set xs \<Longrightarrow> P v \<Longrightarrow> P (snd (body x v))"
  shows "P (snd (forEach xs body w))"
  using assms
proof (induction xs arbitrary: w)
  case Nil
  then show ?case by simp
next
  case (Cons x xs)
  have step: "P (snd (body x w))" using Cons.prems by simp
  show ?case
  proof (cases "body x w")
    case (Pair r w1)
    with step have "P w1" by simp
    show ?thesis
    proof (cases r)
      case (Inl e)
      with Pair \<open>P w1\<close> show ?thesis by simp
    next
      case (Inr u)
      have "P (snd (forEach xs body w1))"
        using \<open>P w1\<close> Cons.prems(2) by (intro Cons.IH) auto
      with Pair Inr show ?thesis by simp
    qed
  qed
qed

lemma markSyncItemCompleted_run:
  "markSyncItemCompleted E k w =
     (if storeFails E (storeOps w) then (Inl StorageError, w\<lparr>storeOps := storeOps w + 1\<rparr>)
      else (Inr (), w\<lparr>storeOps := storeOps w + 1, syncQueue := tdelete k (syncQueue w)\<rparr>))"
  by (simp add: markSyncItemCompleted_def io_defs Let_def)

lemma incrementSyncRetry_run:
  "incrementSyncRetry E k w =
     (if storeFails E (storeOps w) then (Inl StorageError, w\<lparr>storeOps := storeOps w + 1\<rparr>)
      else case tget k (syncQueue w) of
             None \<Rightarrow> (Inr (), w\<lparr>storeOps := storeOps w + 1\<rparr>)
           | Some item \<Rightarrow>
               if storeFails E (storeOps w + 1)
               then (Inl StorageError, w\<lparr>storeOps := storeOps w + 2\<rparr>)
               else (Inr (), w\<lparr>storeOps := storeOps w + 2,
                       syncQueue := tupdate k (\<lambda>i. i\<lparr>retryCount := retryCount item + 1\<rparr>)
                                      (syncQueue w)\<rparr>))"
  by (simp add: incrementSyncRetry_def io_defs Let_def split: option.splits)

lemma fetch_state:
  "fetch E req w = (r, w1) \<Longrightarrow> w1 = w\<lparr>trace := trace w @ [Fetch req]\<rparr>"
  by (auto simp: fetch_def Let_def split: FetchResult.splits)

lemma checkResponse_state: "snd (checkResponse x w) = w"
  by (cases x) (auto simp: checkResponse_def io_defs split: Body.splits)

lemma syncItem_state:
  "syncItem E item w = (r, w1) \<Longrightarrow>
     w1 = w \<or> (\<exists>req. w1 = w\<lparr>trace := trace w @ [Fetch req]\<rparr>)"
  by (auto simp: syncItem_def syncTimeEntry_def createTimeEntryOnServer_def
        updateTimeEntryOnServer_def deleteTimeEntryOnServer_def await_def throw_def
        dest!: fetch_state
        split: TableName.splits Action.splits if_splits prod.splits sum.splits)
     (metis checkResponse_state snd_conv)+


lemma polled_fields:
  "timeEntries (polled w) = timeEntries w" "users (polled w) = users w"
  "syncQueue (polled w) = syncQueue w" "syncInProgress (polled w) = syncInProgress w"
  "onLine (polled w) = onLine w" "trace (polled w) = trace w"
  "storeOps (polled w) = storeOps w" "ticks (polled w) = ticks w"
  "statusLog (polled w) = statusLog w @ [getSyncStatus w]"
  "getSyncStatus (polled w) = getSyncStatus w"
  by (simp_all add: polled_def getSyncStatus_def)

lemma fetch_statusLog:
  "fetch E req (w\<lparr>statusLog := l\<rparr>) =
     (case fetch E req w of (r, w1) \<Rightarrow> (r, w1\<lparr>statusLog := l\<rparr>))"
  by (simp add: fetch_def Let_def split: FetchResult.splits)

lemma checkResponse_statusLog:
  "checkResponse x (w\<lparr>statusLog := l\<rparr>) =
     (case checkResponse x w of (r, w1) \<Rightarrow> (r, w1\<lparr>statusLog := l\<rparr>))"
  by (cases x) (simp add: checkResponse_def io_defs split: Body.splits)

lemma syncItem_statusLog:
  "syncItem E item (w\<lparr>statusLog := l\<rparr>) =
     (case syncItem E item w of (r, w1) \<Rightarrow> (r, w1\<lparr>statusLog := l\<rparr>))"
  by (simp add: syncItem_def syncTimeEntry_def createTimeEntryOnServer_def
        updateTimeEntryOnServer_def deleteTimeEntryOnServer_def await_def throw_def
        fetch_statusLog checkResponse_statusLog
        split: TableName.splits Action.splits prod.splits sum.splits)

lemma syncItem_polled:
  "syncItem E item w = (r, w1) \<Longrightarrow>
     syncItem E item (polled w) = (r, w1\<lparr>statusLog := statusLog w @ [getSyncStatus w]\<rparr>)"
  by (simp add: polled_def syncItem_statusLog)

lemma processItem_unfold:
  "processItem E (k, item) w =
     (if maxRetries \<le> retryCount item then markSyncItemCompleted E k (polled w)
      else case syncItem E item (polled w) of
             (Inl e, w1) \<Rightarrow>
               await (suspended (incrementSyncRetry E k))
                 (\<lambda>u. suspended (delay (retryDelay * (retryCount item + 1)))) w1
           | (Inr u, w1) \<Rightarrow>
               (case markSyncItemCompleted E k (polled w1) of
                  (Inl e, w2) \<Rightarrow>
                    await (suspended (incrementSyncRetry E k))
                      (\<lambda>u. suspended (delay (retryDelay * (retryCount item + 1)))) w2
                | (Inr u, w2) \<Rightarrow> (Inr (), w2)))"
  by (auto simp: processItem_def catch_def await_def suspended_def split: prod.splits sum.splits)

lemma retryLater_run:
  "await (suspended (incrementSyncRetry E k)) (\<lambda>u. suspended (delay d)) w =
     (if storeFails E (storeOps w)
      then (Inl StorageError,
            w\<lparr>statusLog := statusLog w @ [getSyncStatus w], storeOps := storeOps w + 1\<rparr>)
      else case tget k (syncQueue w) of
             None \<Rightarrow>
               (Inr (), w\<lparr>statusLog := statusLog w @ [getSyncStatus w, getSyncStatus w],
                          storeOps := storeOps w + 1, trace := trace w @ [Delay d]\<rparr>)
           | Some item \<Rightarrow>
               if storeFails E (storeOps w + 1)
               then (Inl StorageError,
                     w\<lparr>statusLog := statusLog w @ [getSyncStatus w],
                        storeOps := storeOps w + 2\<rparr>)
               else (Inr (), w\<lparr>statusLog := statusLog w @ [getSyncStatus w, getSyncStatus w],
                       storeOps := storeOps w + 2,
                       syncQueue := tupdate k (\<lambda>i. i\<lparr>retryCount := retryCount item + 1\<rparr>)
                                      (syncQueue w),
                       trace := trace w @ [Delay d]\<rparr>))"
  by (simp add: await_def suspended_def polled_def getSyncStatus_def incrementSyncRetry_run
        delay_def split: option.splits)

lemma drainFrame_refl: "drainFrame w w"
  by (simp add: drainFrame_def)

lemma drainFrame_trans:
  assumes "drainFrame w w1" and "drainFrame w1 w2"
  shows "drainFrame w w2"
proof -
  from assms(1) obtain p1 where p1: "statusLog w1 = statusLog w @ p1"
    "list_all (\<lambda>s. st_syncInProgress s = syncInProgress w) p1"
    and flag: "syncInProgress w1 = syncInProgress w"
    unfolding drainFrame_def by blast
  from assms(2) obtain p2 where p2: "statusLog w2 = statusLog w1 @ p2"
    "list_all (\<lambda>s. st_syncInProgress s = syncInProgress w1) p2"
    unfolding drainFrame_def by blast
  have log: "\<exists>polls. statusLog w2 = statusLog w @ polls \<and>
      list_all (\<lambda>s. st_syncInProgress s = syncInProgress w) polls"
    using p1 p2 flag by (intro exI [of _ "p1 @ p2"]) simp
  have queue: "\<forall>k q'. tget k (syncQueue w2) = Some q' \<longrightarrow>
      (\<exists>q. tget k (syncQueue w) = Some q \<and> retryCount q \<le> retryCount q')"
    using assms unfolding drainFrame_def by (meson order_trans)
  from assms log queue show ?thesis
    unfolding drainFrame_def by simp
qed

lemma processItem_frame: "drainFrame w (snd (processItem E ki w))"
proof -
  obtain k item where ki: "ki = (k, item)" by (cases ki)
  obtain r w1 where s: "syncItem E item w = (r, w1)" by (cases "syncItem E item w")
  from syncItem_state [OF s] show ?thesis
    unfolding ki drainFrame_def
    by (auto simp: processItem_unfold syncItem_polled [OF s] markSyncItemCompleted_run
          retryLater_run polled_fields getSyncStatus_def tget_tupdate tget_tdelete
          split: sum.splits option.splits if_splits)
qed

lemma processItem_other:
  assumes "k' \<noteq> k"
  shows "tget k' (syncQueue (snd (processItem E (k, item) w))) = tget k' (syncQueue w)"
proof -
  obtain r w1 where s: "syncItem E item w = (r, w1)" by (cases "syncItem E item w")
  from syncItem_state [OF s] assms show ?thesis
    by (auto simp: processItem_unfold syncItem_polled [OF s] markSyncItemCompleted_run
          retryLater_run polled_fields tget_tupdate tget_tdelete
          split: sum.splits option.splits if_splits)
qed

lemma processItem_total:
  assumes "noStoreFailure E"
  shows "fst (processItem E ki w) = Inr ()"
proof -
  obtain k item where ki: "ki = (k, item)" by (cases ki)
  obtain r w1 where s: "syncItem E item w = (r, w1)" by (cases "syncItem E item w")
  from assms show ?thesis
    unfolding ki noStoreFailure_def
    by (auto simp: processItem_unfold syncItem_polled [OF s] markSyncItemCompleted_run
          retryLater_run split: sum.splits option.splits)
qed

lemma startState:
  "snd (suspended (getPendingSyncItems E) (w\<lparr>syncInProgress := True\<rparr>)) =
     w\<lparr>syncInProgress := True,
       statusLog := statusLog w @ [\<lparr>st_syncInProgress = True, st_isOnline = onLine w\<rparr>],
       storeOps := storeOps w + 1\<rparr>"
  by (simp add: getPendingSyncItems_def storeOp_def suspended_def polled_def
        getSyncStatus_def Let_def)

lemma passState_0:
  "passState E w 0 =
     w\<lparr>syncInProgress := True,
       statusLog := statusLog w @ [\<lparr>st_syncInProgress = True, st_isOnline = onLine w\<rparr>],
       storeOps := storeOps w + 1\<rparr>"
  by (simp add: passState_def startState)

lemma syncPendingData_idle:
  assumes "\<not> syncInProgress w"
  shows "syncPendingData E w =
     (if storeFails E (storeOps w)
      then (Inr False, (passState E w 0)\<lparr>syncInProgress := False\<rparr>)
      else case forEach (passItems w) (processItem E) (passState E w 0) of
             (Inl e, w1) \<Rightarrow> (Inr False, w1\<lparr>syncInProgress := False\<rparr>)
           | (Inr u, w1) \<Rightarrow> (Inr True, w1\<lparr>syncInProgress := False\<rparr>))"
  using assms
  by (simp add: syncPendingData_def getPendingSyncItems_def passItems_def passState_0
        suspended_def polled_def getSyncStatus_def io_defs Let_def
        split: prod.splits sum.splits)

lemma pass_completed:
  assumes "\<not> syncInProgress w" and "syncPendingData E w = (Inr True, w')"
  shows "fst (forEach (passItems w) (processItem E) (passState E w 0)) = Inr ()"
    and "w' = (passState E w (length (passItems w)))\<lparr>syncInProgress := False\<rparr>"
  using assms
  by (auto simp: syncPendingData_idle passState_def
        split: if_splits prod.splits sum.splits)

lemma passState_step:
  assumes "\<not> syncInProgress w" and "syncPendingData E w = (Inr True, w')"
    and "n < length (passItems w)"
  shows "processItem E (passItems w ! n) (passState E w n) = (Inr (), passState E w (Suc n))"
  using forEach_step [OF assms(3) pass_completed(1) [OF assms(1,2)]]
  by (simp add: passState_def)

lemma forEach_frame: "drainFrame w (snd (forEach xs (processItem E) w))"
  by (rule forEach_invariant [where P = "drainFrame w"])
     (auto intro: drainFrame_refl drainFrame_trans processItem_frame)

lemma passState_frame: "drainFrame (passState E w m) (passState E w (m + n))"
proof -
  let ?w0 = "snd (suspended (getPendingSyncItems E) (w\<lparr>syncInProgress := True\<rparr>))"
  obtain r wm where m: "forEach (take m (passItems w)) (processItem E) ?w0 = (r, wm)"
    by (cases "forEach (take m (passItems w)) (processItem E) ?w0")
  show ?thesis
  proof (cases r)
    case (Inl e)
    with m show ?thesis
      by (simp add: passState_def take_add forEach_append drainFrame_refl)
  next
    case (Inr u)
    with m forEach_frame [of wm "take n (drop m (passItems w))" E] show ?thesis
      by (simp add: passState_def take_add forEach_append)
  qed
qed

lemma passState_final_frame:
  assumes "n \<le> length (passItems w)"
  shows "drainFrame (passState E w n) (passState E w (length (passItems w)))"
  using passState_frame [of E w n "length (passItems w) - n"] assms by simp

lemma distinct_keys_passItems:
  "wfTable (syncQueue w) \<Longrightarrow> distinct (map fst (passItems w))"
  by (simp add: wfTable_def passItems_def distinct_map)

lemma set_passItems: "set (passItems w) = set (rows (syncQueue w))"
  by (simp add: passItems_def)

lemma drainFrame_absent:
  assumes "drainFrame w w'" and "tget k (syncQueue w) = None"
  shows "tget k (syncQueue w') = None"
proof (rule ccontr)
  assume "tget k (syncQueue w') \<noteq> None"
  then obtain q' where "tget k (syncQueue w') = Some q'" by auto
  with assms(1) obtain q where "tget k (syncQueue w) = Some q"
    unfolding drainFrame_def by blast
  with assms(2) show False by simp
qed

lemmas engine_defs = syncPendingData_def getPendingSyncItems_def processItem_def syncItem_def
  suspended_def polled_def getSyncStatus_def
  syncTimeEntry_def createTimeEntryOnServer_def updateTimeEntryOnServer_def
  deleteTimeEntryOnServer_def checkResponse_def markSyncItemCompleted_def
  incrementSyncRetry_def isOfflineTimeEntry_def bodyOf_def maxRetries_def retryDelay_def
  tget_def tdelete_def tupdate_def

lemmas example_defs = staleWorld_def staleItem_def freshItem_def exampleEnv_def
  unreachableEnv_def emptyTable_def

section \<open>Retry limit and backoff\<close>

text \<open>
  C2. In a drain pass that runs to its end (syncPendingData returns true), every queue entry
  whose retryCount is at least maxRetries (3) is deleted from the sync queue; processing it
  leaves the trace of remote calls and delays as it was, so no remote-gateway call is made
  for it; and the time entries, among them the record it references, are left unchanged,
  by that step and by the whole pass.
\<close>

theorem exhausted_entries_dropped:
  assumes "\<not> syncInProgress w" and "syncPendingData E w = (Inr True, w')"
    and "(k, item) \<in> set (rows (syncQueue w))" and "maxRetries \<le> retryCount item"
  shows "k \<notin> fst ` set (rows (syncQueue w')) \<and> timeEntries w' = timeEntries w \<and>
     (\<exists>n < length (passItems w). passItems w ! n = (k, item) \<and>
        processItem E (k, item) (passState E w n) = (Inr (), passState E w (Suc n)) \<and>
        trace (passState E w (Suc n)) = trace (passState E w n) \<and>
        timeEntries (passState E w (Suc n)) = timeEntries (passState E w n))"
proof -
  from assms(3) obtain n where n: "n < length (passItems w)" "passItems w ! n = (k, item)"
    by (auto simp: set_passItems [symmetric] in_set_conv_nth)
  have step: "processItem E (k, item) (passState E w n) = (Inr (), passState E w (Suc n))"
    using passState_step [OF assms(1,2) n(1)] n(2) by simp
  then have completed:
    "markSyncItemCompleted E k (polled (passState E w n)) = (Inr (), passState E w (Suc n))"
    using assms(4) by (simp add: processItem_unfold)
  then have after: "passState E w (Suc n) =
      (polled (passState E w n))\<lparr>storeOps := storeOps (passState E w n) + 1,
         syncQueue := tdelete k (syncQueue (passState E w n))\<rparr>"
    by (auto simp: markSyncItemCompleted_run polled_fields split: if_splits)
  have gone: "tget k (syncQueue (passState E w (Suc n))) = None"
    by (subst after) (simp add: tget_tdelete)
  have "drainFrame (passState E w (Suc n)) (passState E w (length (passItems w)))"
    using n(1) by (intro passState_final_frame) simp
  from drainFrame_absent [OF this gone] have "tget k (syncQueue w') = None"
    by (simp add: pass_completed(2) [OF assms(1,2)])
  then have 1: "k \<notin> fst ` set (rows (syncQueue w'))"
    by (simp add: tget_def map_of_eq_None_iff)
  have "drainFrame (passState E w 0) (passState E w (length (passItems w)))"
    by (intro passState_final_frame) simp
  then have 2: "timeEntries w' = timeEntries w"
    by (simp add: pass_completed(2) [OF assms(1,2)] drainFrame_def passState_0)
  have 3: "trace (passState E w (Suc n)) = trace (passState E w n)"
    "timeEntries (passState E w (Suc n)) = timeEntries (passState E w n)"
    by (subst after, simp add: polled_fields)+
  from 1 2 3 n step show ?thesis by blast
qed

theorem exhausted_entries_dropped_witness:
  "\<not> syncInProgress staleWorld \<and>
   fst (syncPendingData exampleEnv staleWorld) = Inr True \<and>
   (1, staleItem) \<in> set (rows (syncQueue staleWorld)) \<and>
   maxRetries \<le> retryCount staleItem \<and>
   1 \<notin> fst ` set (rows (syncQueue (snd (syncPendingData exampleEnv staleWorld)))) \<and>
   timeEntries (snd (syncPendingData exampleEnv staleWorld)) = timeEntries staleWorld \<and>
   trace (snd (syncPendingData exampleEnv staleWorld)) = [Fetch (DeleteTimeEntry ''7'')]"
proof -
  let ?busy = "\<lparr>st_syncInProgress = True, st_isOnline = True\<rparr>"
  have run: "syncPendingData exampleEnv staleWorld =
      (Inr True, staleWorld\<lparr>syncQueue := \<lparr>rows = [], nextKey = 3\<rparr>, storeOps := 3,
         trace := [Fetch (DeleteTimeEntry ''7'')],
         statusLog := [?busy, ?busy, ?busy, ?busy]\<rparr>)"
    by (simp add: engine_defs io_defs example_defs Let_def)
  have idle: "\<not> syncInProgress staleWorld"
    by (simp add: staleWorld_def)
  have queued: "(1, staleItem) \<in> set (rows (syncQueue staleWorld))"
    by (simp add: staleWorld_def)
  have exhausted: "maxRetries \<le> retryCount staleItem"
    by (simp add: maxRetries_def staleItem_def)
  from exhausted_entries_dropped [OF idle run queued exhausted]
  have "1 \<notin> fst ` set (rows (syncQueue (snd (syncPendingData exampleEnv staleWorld))))"
    "timeEntries (snd (syncPendingData exampleEnv staleWorld)) = timeEntries staleWorld"
    by (simp_all add: run)
  with idle queued exhausted show ?thesis
    by (simp add: run)
qed

lemma forEach_other_keys:
  assumes "\<forall>x \<in> set xs. fst x \<noteq> k"
  shows "tget k (syncQueue (snd (forEach xs (processItem E) v))) = tget k (syncQueue v)"
proof (rule forEach_invariant [where P = "\<lambda>v'::World. tget k (syncQueue v') = tget k (syncQueue v)"])
  show "tget k (syncQueue v) = tget k (syncQueue v)" ..
next
  fix x :: "int \<times> SyncQueueItem" and v' :: World
  assume "x \<in> set xs" and "tget k (syncQueue v') = tget k (syncQueue v)"
  with assms processItem_other [of k "fst x" E "snd x" v']
  show "tget k (syncQueue (snd (processItem E x v'))) = tget k (syncQueue v)"
    by auto
qed

lemma passState_rest:
  assumes "\<not> syncInProgress w" and "syncPendingData E w = (Inr True, w')"
  shows "passState E w (length (passItems w)) =
           snd (forEach (drop m (passItems w)) (processItem E) (passState E w m))"
  using forEach_rest [OF pass_completed(1) [OF assms], of m]
  by (simp add: passState_def startState)

lemma distinct_keys_split:
  assumes "distinct (map fst xs)" and "n < length xs" and "xs ! n = (k, v)"
  shows "\<forall>x \<in> set (take n xs). fst x \<noteq> k" and "\<forall>x \<in> set (drop (Suc n) xs). fst x \<noteq> k"
    and "\<forall>m < length xs. fst (xs ! m) = k \<longrightarrow> m = n"
proof -
  have "xs = take n xs @ (k, v) # drop (Suc n) xs"
    using assms(2,3) by (metis id_take_nth_drop)
  then have "distinct (map fst (take n xs @ (k, v) # drop (Suc n) xs))"
    using assms(1) by simp
  then show "\<forall>x \<in> set (take n xs). fst x \<noteq> k" and "\<forall>x \<in> set (drop (Suc n) xs). fst x \<noteq> k"
    by auto
  show "\<forall>m < length xs. fst (xs ! m) = k \<longrightarrow> m = n"
  proof (intro allI impI)
    fix m assume m: "m < length xs" "fst (xs ! m) = k"
    have "map fst xs ! m = map fst xs ! n" using m assms(2,3) by simp
    moreover have "m < length (map fst xs)" "n < length (map fst xs)"
      using m(1) assms(2) by simp_all
    ultimately show "m = n"
      using assms(1) nth_eq_iff_index_eq by blast
  qed
qed

text \<open>
  C4. In a drain pass that runs to its end, over a queue whose keys are distinct: for a
  queue entry whose replay attempt fails (syncItem throws), the stored retryCount is
  increased by exactly 1 and the entry stays in the queue; the attempt made at most one
  remote call, and the next effect of the pass, before it moves on to the next entry, is a
  delay of retryDelay * (retryCount + 1) milliseconds; the entry occurs once in the
  snapshot of the pass, so it is not tried again in the same pass; and no entry that is
  still queued after the pass has a smaller retry counter than before.
\<close>

theorem failed_replay_retry:
  assumes "\<not> syncInProgress w" and "syncPendingData E w = (Inr True, w')"
    and "wfTable (syncQueue w)"
    and "n < length (passItems w)" and "passItems w ! n = (k, item)"
    and "retryCount item < maxRetries"
    and "syncItem E item (passState E w n) = (Inl e, w1)"
  shows "tget k (syncQueue w) = Some item \<and>
         tget k (syncQueue w') = Some (item\<lparr>retryCount := retryCount item + 1\<rparr>) \<and>
         (trace w1 = trace (passState E w n) \<or>
          (\<exists>req. trace w1 = trace (passState E w n) @ [Fetch req])) \<and>
         trace (passState E w (Suc n)) = trace w1 @ [Delay (retryDelay * (retryCount item + 1))] \<and>
         (\<forall>m < length (passItems w). fst (passItems w ! m) = k \<longrightarrow> m = n) \<and>
         (\<forall>k' q'. tget k' (syncQueue w') = Some q' \<longrightarrow>
            (\<exists>q. tget k' (syncQueue w) = Some q \<and> retryCount q \<le> retryCount q'))"
proof -
  let ?items = "passItems w"
  let ?d = "retryDelay * (retryCount item + 1)"
  have dist: "distinct (map fst ?items)"
    using assms(3) by (rule distinct_keys_passItems)
  note split = distinct_keys_split [OF dist assms(4,5)]
  have "(k, item) \<in> set (rows (syncQueue w))"
    using assms(4,5) set_passItems [of w] nth_mem [of n ?items] by auto
  then have stored: "tget k (syncQueue w) = Some item"
    using assms(3) by (simp add: tget_def wfTable_def)
  have "passState E w n = snd (forEach (take n ?items) (processItem E) (passState E w 0))"
    by (simp add: passState_def)
  then have "tget k (syncQueue (passState E w n)) = tget k (syncQueue (passState E w 0))"
    using forEach_other_keys [OF split(1)] by simp
  with stored have at_n: "tget k (syncQueue (passState E w n)) = Some item"
    by (simp add: passState_0)
  from syncItem_state [OF assms(7)]
  have w1: "syncQueue w1 = syncQueue (passState E w n)"
    and 0: "trace w1 = trace (passState E w n) \<or>
      (\<exists>req. trace w1 = trace (passState E w n) @ [Fetch req])"
    by auto
  have "processItem E (k, item) (passState E w n) = (Inr (), passState E w (Suc n))"
    using passState_step [OF assms(1,2,4)] assms(5) by simp
  then have "await (suspended (incrementSyncRetry E k)) (\<lambda>u. suspended (delay ?d))
      (w1\<lparr>statusLog := statusLog (passState E w n) @ [getSyncStatus (passState E w n)]\<rparr>) =
      (Inr (), passState E w (Suc n))"
    using assms(6) by (simp add: processItem_unfold syncItem_polled [OF assms(7)])
  moreover have "tget k (syncQueue v) = Some (item\<lparr>retryCount := retryCount item + 1\<rparr>) \<and>
      trace v = trace w1 @ [Delay ?d]"
    if "await (suspended (incrementSyncRetry E k)) (\<lambda>u. suspended (delay ?d))
      (w1\<lparr>statusLog := statusLog (passState E w n) @ [getSyncStatus (passState E w n)]\<rparr>) =
      (Inr (), v)" for v
    using that at_n w1 by (auto simp: retryLater_run tget_tupdate split: if_splits)
  ultimately have at_Suc: "tget k (syncQueue (passState E w (Suc n))) =
      Some (item\<lparr>retryCount := retryCount item + 1\<rparr>)"
    and 2: "trace (passState E w (Suc n)) = trace w1 @ [Delay ?d]"
    by blast+
  have "tget k (syncQueue (passState E w (length ?items))) =
      tget k (syncQueue (passState E w (Suc n)))"
    using forEach_other_keys [OF split(2)] passState_rest [OF assms(1,2), of "Suc n"] by simp
  with at_Suc have 1: "tget k (syncQueue w') = Some (item\<lparr>retryCount := retryCount item + 1\<rparr>)"
    by (simp add: pass_completed(2) [OF assms(1,2)])
  have "drainFrame (passState E w 0) (passState E w (length ?items))"
    by (intro passState_final_frame) simp
  then have 3: "\<forall>k' q'. tget k' (syncQueue w') = Some q' \<longrightarrow>
      (\<exists>q. tget k' (syncQueue w) = Some q \<and> retryCount q \<le> retryCount q')"
    by (simp add: pass_completed(2) [OF assms(1,2)] drainFrame_def passState_0)
  from stored 0 1 2 split(3) 3 show ?thesis by blast
qed


theorem failed_replay_retry_witness:
  "\<not> syncInProgress staleWorld \<and>
   fst (syncPendingData unreachableEnv staleWorld) = Inr True \<and>
   wfTable (syncQueue staleWorld) \<and>
   passItems staleWorld ! 1 = (2, freshItem) \<and>
   retryCount freshItem < maxRetries \<and>
   fst (syncItem unreachableEnv freshItem (passState unreachableEnv staleWorld 1)) =
     Inl NetworkError \<and>
   tget 2 (syncQueue (snd (syncPendingData unreachableEnv staleWorld))) =
     Some (freshItem\<lparr>retryCount := 1\<rparr>) \<and>
   trace (passState unreachableEnv staleWorld 2) = [Fetch (DeleteTimeEntry ''7''), Delay 1000]"
proof -
  let ?busy = "\<lparr>st_syncInProgress = True, st_isOnline = True\<rparr>"
  let ?w1 = "staleWorld\<lparr>syncInProgress := True, storeOps := 2,
      syncQueue := \<lparr>rows = [(2, freshItem)], nextKey = 3\<rparr>,
      trace := [Fetch (DeleteTimeEntry ''7'')], statusLog := [?busy, ?busy]\<rparr>"
  have items: "passItems staleWorld = [(1, staleItem), (2, freshItem)]"
    by (simp add: passItems_def example_defs)
  have idle: "\<not> syncInProgress staleWorld"
    by (simp add: staleWorld_def)
  have wf: "wfTable (syncQueue staleWorld)"
    by (simp add: wfTable_def staleWorld_def)
  have fresh: "retryCount freshItem < maxRetries"
    by (simp add: maxRetries_def freshItem_def)
  have nth: "passItems staleWorld ! 1 = (2, freshItem)"
    by (simp add: items)
  have len: "1 < length (passItems staleWorld)"
    by (simp add: items)
  have state1: "passState unreachableEnv staleWorld 1 =
      staleWorld\<lparr>syncInProgress := True, storeOps := 2,
        syncQueue := \<lparr>rows = [(2, freshItem)], nextKey = 3\<rparr>,
        statusLog := [\<lparr>st_syncInProgress = True, st_isOnline = True\<rparr>, \<lparr>st_syncInProgress = True, st_isOnline = True\<rparr>]\<rparr>"
    by (simp only: passState_def items) (simp add: engine_defs io_defs example_defs Let_def)
  have fails: "syncItem unreachableEnv freshItem (passState unreachableEnv staleWorld 1) =
      (Inl NetworkError, ?w1)"
    by (simp only: state1) (simp add: engine_defs io_defs example_defs Let_def)
  obtain r w' where run: "syncPendingData unreachableEnv staleWorld = (r, w')"
    by (cases "syncPendingData unreachableEnv staleWorld")
  then have r: "r = Inr True"
    by (simp add: engine_defs io_defs example_defs Let_def)
  from failed_replay_retry [OF idle run [unfolded r] wf len nth fresh fails]
  have "tget 2 (syncQueue w') = Some (freshItem\<lparr>retryCount := retryCount freshItem + 1\<rparr>)"
    "trace (passState unreachableEnv staleWorld (Suc 1)) =
       trace ?w1 @ [Delay (retryDelay * (retryCount freshItem + 1))]"
    by blast+
  then show ?thesis
    using idle wf fresh nth fails run r
    by (simp add: freshItem_def retryDelay_def numeral_2_eq_2)
qed

lemma passState_busy: "syncInProgress (passState E w n)"
  using passState_frame [of E w 0 n] by (simp add: drainFrame_def passState_0)

section \<open>The in-progress flag\<close>

text \<open>
  C3. When syncPendingData, or the manual trigger forcSync / triggerSync that delegates to
  it, is called in a state where a drain is in progress, it returns false at once and
  leaves the whole state as it was: no queue entry is processed, no remote call is made,
  and the pass in flight goes on from the state it had. Every state of a pass, after any
  number of processed items, has the flag set, so a trigger that arrives there is rejected
  in this way and no second drain starts.
\<close>

theorem busy_trigger_rejected:
  "(syncInProgress w \<longrightarrow>
      syncPendingData E w = (Inr False, w) \<and> forcSync E w = (Inr False, w) \<and>
      triggerSync E w = (Inr False, w)) \<and>
   syncInProgress (passState E w n) \<and>
   triggerSync E' (passState E w n) = (Inr False, passState E w n)"
  using passState_busy [of E w n]
  by (simp add: triggerSync_def forcSync_def syncPendingData_def)

theorem busy_trigger_rejected_witness:
  "syncInProgress (passState unreachableEnv staleWorld 1) \<and>
   triggerSync exampleEnv (passState unreachableEnv staleWorld 1) =
     (Inr False, passState unreachableEnv staleWorld 1) \<and>
   rows (syncQueue (snd (triggerSync exampleEnv (passState unreachableEnv staleWorld 1)))) =
     [(2, freshItem)] \<and>
   trace (snd (triggerSync exampleEnv (passState unreachableEnv staleWorld 1))) = []"
proof -
  have items: "passItems staleWorld = [(1, staleItem), (2, freshItem)]"
    by (simp add: passItems_def example_defs)
  have state1: "passState unreachableEnv staleWorld 1 =
      staleWorld\<lparr>syncInProgress := True, storeOps := 2,
        syncQueue := \<lparr>rows = [(2, freshItem)], nextKey = 3\<rparr>,
        statusLog := [\<lparr>st_syncInProgress = True, st_isOnline = True\<rparr>, \<lparr>st_syncInProgress = True, st_isOnline = True\<rparr>]\<rparr>"
    by (simp only: passState_def items) (simp add: engine_defs io_defs example_defs Let_def)
  have busy: "syncInProgress (passState unreachableEnv staleWorld 1)"
    by (simp only: state1) simp
  from busy_trigger_rejected [of "passState unreachableEnv staleWorld 1" exampleEnv] busy
  have "triggerSync exampleEnv (passState unreachableEnv staleWorld 1) =
      (Inr False, passState unreachableEnv staleWorld 1)"
    by blast
  then show ?thesis
    using busy by (simp only: state1 snd_conv) (simp add: staleWorld_def)
qed

lemma forEach_total:
  assumes "\<And>x v. fst (body x v) = Inr ()"
  shows "fst (forEach xs body w) = Inr ()"
proof (induction xs arbitrary: w)
  case Nil
  show ?case by simp
next
  case (Cons x xs)
  obtain r w1 where s: "body x w = (r, w1)" by (cases "body x w")
  with assms [of x w] have "r = Inr ()" by simp
  with s Cons.IH [of w1] show ?case by simp
qed

lemma syncPendingData_result:
  assumes "\<not> syncInProgress w"
  shows "\<not> syncInProgress (snd (syncPendingData E w))"
    and "fst (syncPendingData E w) =
           Inr (\<not> storeFails E (storeOps w) \<and>
                fst (forEach (passItems w) (processItem E) (passState E w 0)) = Inr ())"
  using assms
  by (auto simp: syncPendingData_idle split: prod.splits sum.splits)

lemma syncPendingData_completes:
  assumes "noStoreFailure E" and "\<not> syncInProgress w"
  shows "fst (syncPendingData E w) = Inr True"
  using forEach_total [of "processItem E" "passItems w" "passState E w 0"]
    processItem_total [OF assms(1)] assms(1)
  by (simp add: syncPendingData_result(2) [OF assms(2)] noStoreFailure_def)

lemma syncPendingData_reads_queue:
  assumes "\<not> syncInProgress w"
  shows "storeOps w < storeOps (snd (syncPendingData E w))"
proof -
  have "drainFrame (passState E w 0) (snd (forEach (passItems w) (processItem E) (passState E w 0)))"
    by (rule forEach_frame)
  then have "storeOps w + 1 \<le>
      storeOps (snd (forEach (passItems w) (processItem E) (passState E w 0)))"
    by (simp add: drainFrame_def passState_0)
  then show ?thesis
    using assms by (auto simp: syncPendingData_idle passState_0 split: prod.splits sum.splits)
qed

lemma pass_polls:
  assumes "\<not> syncInProgress w"
  shows "\<exists>polls. statusLog (snd (syncPendingData E w)) = statusLog w @ polls \<and>
           polls \<noteq> [] \<and> list_all st_syncInProgress polls"
proof -
  let ?busy = "\<lparr>st_syncInProgress = True, st_isOnline = onLine w\<rparr>"
  let ?end = "snd (forEach (passItems w) (processItem E) (passState E w 0))"
  have start: "statusLog (passState E w 0) = statusLog w @ [?busy]"
    and flag: "syncInProgress (passState E w 0)"
    by (simp_all add: passState_0)
  have "drainFrame (passState E w 0) ?end"
    by (rule forEach_frame)
  with flag obtain later where later: "statusLog ?end = statusLog (passState E w 0) @ later"
    "list_all st_syncInProgress later"
    unfolding drainFrame_def by auto
  have "statusLog (snd (syncPendingData E w)) = statusLog w @ [?busy] \<or>
      statusLog (snd (syncPendingData E w)) = statusLog w @ (?busy # later)"
    using assms start later(1)
    by (auto simp: syncPendingData_idle split: prod.splits sum.splits)
  then show ?thesis
    using later(2) by auto
qed

text \<open>
  C10. A call of syncPendingData in an idle state sets the flag for the duration of the
  pass: every status poll made while the pass is suspended, and there is at least one,
  reads syncInProgress = true, and every state of the pass has the flag set. When the call
  returns the flag is reset. The call never throws: it returns true when the queue was
  read and the loop ran to its end, and false when reading the queue or a storage
  operation in the loop threw (the catch path); in both cases the flag is reset. A later
  call is therefore not rejected as busy: it reads the queue, and it returns true when the
  storage engine reports no failure.
\<close>

theorem flag_reset_after_pass:
  assumes "\<not> syncInProgress w"
  shows "(\<exists>polls. statusLog (snd (syncPendingData E w)) = statusLog w @ polls \<and>
            polls \<noteq> [] \<and> list_all st_syncInProgress polls) \<and>
         (\<forall>n. syncInProgress (passState E w n)) \<and>
         \<not> syncInProgress (snd (syncPendingData E w)) \<and>
         fst (syncPendingData E w) =
           Inr (\<not> storeFails E (storeOps w) \<and>
                fst (forEach (passItems w) (processItem E) (passState E w 0)) = Inr ()) \<and>
         storeOps (snd (syncPendingData E w)) <
           storeOps (snd (syncPendingData E' (snd (syncPendingData E w)))) \<and>
         (noStoreFailure E' \<longrightarrow>
            fst (syncPendingData E' (snd (syncPendingData E w))) = Inr True)"
  using pass_polls [OF assms, of E] passState_busy [of E w]
    syncPendingData_result [OF assms, of E]
    syncPendingData_reads_queue [of "snd (syncPendingData E w)" E']
    syncPendingData_completes [of E' "snd (syncPendingData E w)"]
  by blast

theorem flag_reset_after_pass_witness:
  "\<not> syncInProgress staleWorld \<and>
   fst (syncPendingData failingStoreEnv staleWorld) = Inr False \<and>
   statusLog (snd (syncPendingData failingStoreEnv staleWorld)) =
     [\<lparr>st_syncInProgress = True, st_isOnline = True\<rparr>,
      \<lparr>st_syncInProgress = True, st_isOnline = True\<rparr>] \<and>
   \<not> syncInProgress (snd (syncPendingData failingStoreEnv staleWorld)) \<and>
   noStoreFailure exampleEnv \<and>
   fst (syncPendingData exampleEnv (snd (syncPendingData failingStoreEnv staleWorld))) = Inr True"
proof -
  let ?busy = "\<lparr>st_syncInProgress = True, st_isOnline = True\<rparr>"
  have idle: "\<not> syncInProgress staleWorld"
    by (simp add: staleWorld_def)
  have run: "syncPendingData failingStoreEnv staleWorld =
      (Inr False, staleWorld\<lparr>storeOps := 2, statusLog := [?busy, ?busy]\<rparr>)"
    by (simp add: engine_defs io_defs example_defs failingStoreEnv_def Let_def)
  from flag_reset_after_pass [OF idle, of failingStoreEnv exampleEnv] noStoreFailure_exampleEnv
  have "\<not> syncInProgress (snd (syncPendingData failingStoreEnv staleWorld))"
    "fst (syncPendingData exampleEnv (snd (syncPendingData failingStoreEnv staleWorld))) = Inr True"
    by blast+
  with idle run noStoreFailure_exampleEnv show ?thesis
    by simp
qed

section \<open>Properties of the bulk download\<close>

lemma storeServerEntry_run:
  "storeServerEntry E uid entry w =
     (if storeFails E (storeOps w) then (Inl StorageError, w\<lparr>storeOps := storeOps w + 1\<rparr>)
      else if existsLocally uid entry w then (Inr (), w\<lparr>storeOps := storeOps w + 1\<rparr>)
      else if storeFails E (storeOps w + 1)
      then (Inl StorageError, w\<lparr>storeOps := storeOps w + 2\<rparr>)
      else (Inr (), w\<lparr>storeOps := storeOps w + 2,
              timeEntries :=
                \<lparr>rows = rows (timeEntries w) @ [(nextKey (timeEntries w), toOfflineEntry uid entry)],
                 nextKey = nextKey (timeEntries w) + 1\<rparr>\<rparr>))"
proof -
  let ?P = "\<lambda>(k, e). userId e = uid \<and> date e = se_date entry \<and>
              timeStarted e = se_timeStarted entry"
  have "(find ?P (rows (timeEntries w)) = None) = (\<not> existsLocally uid entry w)"
    by (auto simp: existsLocally_def find_None_iff list_ex_iff)
  then show ?thesis
    by (cases "find ?P (rows (timeEntries w))")
       (auto simp: storeServerEntry_def io_defs Let_def tadd_def toOfflineEntry_def)
qed

lemma downloadFrame_refl: "downloadFrame w w"
  by (simp add: downloadFrame_def)

lemma downloadFrame_trans:
  "downloadFrame w w1 \<Longrightarrow> downloadFrame w1 w2 \<Longrightarrow> downloadFrame w w2"
  by (auto simp: downloadFrame_def)

lemma storeServerEntry_frame: "downloadFrame w (snd (storeServerEntry E uid entry w))"
  by (simp add: storeServerEntry_run downloadFrame_def)

lemma storeEntries_frame: "downloadFrame w (snd (forEach es (storeServerEntry E uid) w))"
  by (rule forEach_invariant [where P = "downloadFrame w"])
     (auto intro: downloadFrame_refl downloadFrame_trans storeServerEntry_frame)

lemma downloadMonth_run:
  "downloadMonth E uid year month i w =
     (let targetDate = mkDate E year (month - 1 - i) 1 0 0 0;
          req = GetMonthly (getFullYear E targetDate) (getMonth E targetDate + 1);
          w1 = w\<lparr>trace := trace w @ [Fetch req]\<rparr>
      in case respond E (trace w) req of
           Rejected \<Rightarrow> (Inl NetworkError, w1)
         | Response ok body \<Rightarrow>
             if \<not> ok then (Inr (), w1)
             else (case body of
                     BadJson \<Rightarrow> (Inl ParseError, w1)
                   | Json entries \<Rightarrow>
                       forEach (case entries of None \<Rightarrow> [] | Some es \<Rightarrow> es)
                         (storeServerEntry E uid) w1))"
  by (simp add: downloadMonth_def io_defs Let_def split: FetchResult.splits Body.splits)

lemma downloadMonth_frame: "downloadFrame w (snd (downloadMonth E uid year month i w))"
proof -
  have "downloadFrame w (w\<lparr>trace := t\<rparr>)" for t
    by (simp add: downloadFrame_def)
  moreover have "downloadFrame (w\<lparr>trace := t\<rparr>) (snd (forEach es (storeServerEntry E uid) (w\<lparr>trace := t\<rparr>)))" for t es
    by (rule storeEntries_frame)
  ultimately show ?thesis
    by (auto simp: downloadMonth_run Let_def intro: downloadFrame_trans
          split: FetchResult.splits Body.splits)
qed

lemma downloadMonths_frame:
  "downloadFrame w (snd (forEach is (downloadMonth E uid year month) w))"
  by (rule forEach_invariant [where P = "downloadFrame w"])
     (auto intro: downloadFrame_refl downloadFrame_trans downloadMonth_frame)

lemma updateLastSyncTime_run:
  "updateLastSyncTime E uid w =
     (if storeFails E (storeOps w) then (Inl StorageError, w\<lparr>storeOps := storeOps w + 1\<rparr>)
      else case find (\<lambda>(k, u). email u = uid) (rows (users w)) of
             None \<Rightarrow> (Inr (), w\<lparr>storeOps := storeOps w + 1\<rparr>)
           | Some (k, u) \<Rightarrow>
               if storeFails E (storeOps w + 1)
               then (Inl StorageError, w\<lparr>storeOps := storeOps w + 2, ticks := ticks w + 1\<rparr>)
               else (Inr (), w\<lparr>storeOps := storeOps w + 2, ticks := ticks w + 1,
                       users := tupdate k (\<lambda>u. u\<lparr>lastSync := clock E (ticks w)\<rparr>) (users w)\<rparr>))"
  by (simp add: updateLastSyncTime_def io_defs Let_def split: option.splits prod.splits)

lemma updateLastSyncTime_frame:
  "timeEntries (snd (updateLastSyncTime E uid w)) = timeEntries w"
  "syncQueue (snd (updateLastSyncTime E uid w)) = syncQueue w"
  "fst (updateLastSyncTime E uid w) = Inl e \<Longrightarrow> users (snd (updateLastSyncTime E uid w)) = users w"
  by (auto simp: updateLastSyncTime_run split: option.splits prod.splits if_splits)

lemma download_unfold:
  assumes "onLine w"
  shows "downloadServerData E uid w =
     (case monthsDone E uid w 3 of
        (Inl e, w1) \<Rightarrow> (Inl e, w1)
      | (Inr u, w1) \<Rightarrow> updateLastSyncTime E uid w1)"
  using assms
  by (simp add: downloadServerData_def monthsDone_def currentYear_def currentMonth_def
        await_def newDate_def Let_def)

lemma monthsDone_0: "monthsDone E uid w 0 = (Inr (), w\<lparr>ticks := ticks w + 1\<rparr>)"
  by (simp add: monthsDone_def newDate_def)


lemma monthsDone_Suc:
  assumes "i < 3"
  shows "monthsDone E uid w (Suc i) =
     (case monthsDone E uid w i of
        (Inl e, w1) \<Rightarrow> (Inl e, w1)
      | (Inr u, w1) \<Rightarrow> downloadMonth E uid (currentYear E w) (currentMonth E w) (int i) w1)"
proof -
  have nth: "[0, 1, 2 :: int] ! i = int i"
    using assms by (cases i rule: nat.exhaust) (auto simp: nth_Cons' numeral_3_eq_3 less_Suc_eq)
  have "take (Suc i) [0, 1, 2 :: int] = take i [0, 1, 2] @ [[0, 1, 2] ! i]"
    using assms by (intro take_Suc_conv_app_nth) simp
  then show ?thesis
    unfolding monthsDone_def
    by (simp only: forEach_append nth) (auto split: prod.splits sum.splits)
qed

lemma monthsDone_frame:
  "downloadFrame w (snd (monthsDone E uid w i))"
proof -
  have "downloadFrame w (snd (newDate E w))"
    by (simp add: newDate_def downloadFrame_def)
  then show ?thesis
    unfolding monthsDone_def
    using downloadMonths_frame downloadFrame_trans by blast
qed







lemma utc_june_2024:
  "utcFullYear 1718000000000 = 2024" "utcMonth 1718000000000 = 5"
  "utcDate 2024 5 1 0 0 0 = 1717200000000" "utcDate 2024 4 1 0 0 0 = 1714521600000"
  "utcDate 2024 3 1 0 0 0 = 1711929600000"
  "utcFullYear 1717200000000 = 2024" "utcMonth 1717200000000 = 5"
  "utcFullYear 1714521600000 = 2024" "utcMonth 1714521600000 = 4"
  "utcFullYear 1711929600000 = 2024" "utcMonth 1711929600000 = 3"
  by code_simp+



lemma download_queue_unchanged: "syncQueue (snd (downloadServerData E uid w)) = syncQueue w"
proof (cases "onLine w")
  case True
  have "syncQueue (snd (monthsDone E uid w 3)) = syncQueue w"
    using monthsDone_frame [of w E uid 3] by (simp add: downloadFrame_def)
  with True show ?thesis
    by (cases "monthsDone E uid w 3")
       (auto simp: download_unfold updateLastSyncTime_frame split: sum.splits)
next
  case False
  then show ?thesis by (simp add: downloadServerData_def throw_def)
qed

lemma mergeEntries_append:
  "mergeEntries uid (xs @ ys) t = mergeEntries uid ys (mergeEntries uid xs t)"
  by (induction xs arbitrary: t) auto

lemma storeEntries_merge:
  assumes "noStoreFailure E"
  shows "\<exists>v'. forEach es (storeServerEntry E uid) v = (Inr (), v') \<and>
           timeEntries v' = mergeEntries uid es (timeEntries v) \<and> trace v' = trace v"
proof (induction es arbitrary: v)
  case Nil
  show ?case by simp
next
  case (Cons entry es)
  let ?t = "if existsLocally uid entry v then timeEntries v
            else \<lparr>rows = rows (timeEntries v) @ [(nextKey (timeEntries v), toOfflineEntry uid entry)],
                  nextKey = nextKey (timeEntries v) + 1\<rparr>"
  have "\<exists>v1. storeServerEntry E uid entry v = (Inr (), v1) \<and>
      timeEntries v1 = ?t \<and> trace v1 = trace v"
    using assms by (simp add: storeServerEntry_run noStoreFailure_def)
  then obtain v1 where step: "storeServerEntry E uid entry v = (Inr (), v1)"
    and t1: "timeEntries v1 = ?t" and tr1: "trace v1 = trace v"
    by blast
  from Cons.IH [of v1] obtain v' where rest: "forEach es (storeServerEntry E uid) v1 = (Inr (), v')"
    "timeEntries v' = mergeEntries uid es (timeEntries v1)" "trace v' = trace v1"
    by blast
  have "mergeEntries uid (entry # es) (timeEntries v) = mergeEntries uid es ?t"
    by (simp add: existsLocally_def toOfflineEntry_def)
  with step rest t1 tr1 show ?case
    by simp
qed

lemma downloadMonth_merge:
  assumes "noStoreFailure E"
    and "monthEntries (respond E (trace v) (monthRequest E y m i)) = Some es"
  shows "\<exists>v'. downloadMonth E uid y m i v = (Inr (), v') \<and>
           timeEntries v' = mergeEntries uid es (timeEntries v) \<and>
           trace v' = trace v @ [Fetch (monthRequest E y m i)]"
proof -
  let ?v1 = "v\<lparr>trace := trace v @ [Fetch (monthRequest E y m i)]\<rparr>"
  from storeEntries_merge [OF assms(1), of es uid ?v1]
  obtain v' where "forEach es (storeServerEntry E uid) ?v1 = (Inr (), v')"
    "timeEntries v' = mergeEntries uid es (timeEntries v)"
    "trace v' = trace v @ [Fetch (monthRequest E y m i)]"
    by auto
  moreover have "forEach [] (storeServerEntry E uid) ?v1 = (Inr (), ?v1)"
    by simp
  ultimately show ?thesis
    using assms(2)
    by (auto simp: downloadMonth_run monthEntries_def monthRequest_def Let_def
          split: FetchResult.splits Body.splits option.splits if_splits)
qed

lemma updateLastSyncTime_total:
  "noStoreFailure E \<Longrightarrow> fst (updateLastSyncTime E uid v) = Inr ()"
  by (simp add: updateLastSyncTime_run noStoreFailure_def split: option.splits prod.splits)

lemma updateLastSyncTime_trace: "trace (snd (updateLastSyncTime E uid v)) = trace v"
  by (simp add: updateLastSyncTime_run split: option.splits prod.splits)

lemma download_merge:
  assumes "onLine w" and "noStoreFailure E"
    and "downloadRequests E w = [q0, q1, q2]"
    and "monthEntries (respond E (trace w) q0) = Some es0"
    and "monthEntries (respond E (trace w @ [Fetch q0]) q1) = Some es1"
    and "monthEntries (respond E (trace w @ [Fetch q0, Fetch q1]) q2) = Some es2"
  shows "fst (downloadServerData E uid w) = Inr () \<and>
         timeEntries (snd (downloadServerData E uid w)) =
           mergeEntries uid (es0 @ es1 @ es2) (timeEntries w) \<and>
         trace (snd (downloadServerData E uid w)) = trace w @ [Fetch q0, Fetch q1, Fetch q2]"
proof -
  let ?y = "currentYear E w" and ?m = "currentMonth E w"
  have q: "q0 = monthRequest E ?y ?m 0" "q1 = monthRequest E ?y ?m 1"
    "q2 = monthRequest E ?y ?m 2"
    using assms(3) by (simp_all add: downloadRequests_def)
  let ?v0 = "w\<lparr>ticks := ticks w + 1\<rparr>"
  have m0: "monthsDone E uid w 0 = (Inr (), ?v0)"
    by (rule monthsDone_0)
  from downloadMonth_merge [OF assms(2), of ?v0 ?y ?m 0 es0 uid] assms(4)
  obtain v1 where d1: "downloadMonth E uid ?y ?m 0 ?v0 = (Inr (), v1)"
    and t1: "timeEntries v1 = mergeEntries uid es0 (timeEntries w)"
    and tr1: "trace v1 = trace w @ [Fetch q0]"
    by (auto simp: q)
  have m1: "monthsDone E uid w (Suc 0) = (Inr (), v1)"
    using monthsDone_Suc [of 0 E uid w] m0 d1 by simp
  from downloadMonth_merge [OF assms(2), of v1 ?y ?m 1 es1 uid] assms(5)
  obtain v2 where d2: "downloadMonth E uid ?y ?m 1 v1 = (Inr (), v2)"
    and t2: "timeEntries v2 = mergeEntries uid es1 (timeEntries v1)"
    and tr2: "trace v2 = trace v1 @ [Fetch q1]"
    by (auto simp: q tr1)
  have m2: "monthsDone E uid w (Suc (Suc 0)) = (Inr (), v2)"
    using monthsDone_Suc [of "Suc 0" E uid w] m1 d2 by simp
  from downloadMonth_merge [OF assms(2), of v2 ?y ?m 2 es2 uid] assms(6)
  obtain v3 where d3: "downloadMonth E uid ?y ?m 2 v2 = (Inr (), v3)"
    and t3: "timeEntries v3 = mergeEntries uid es2 (timeEntries v2)"
    and tr3: "trace v3 = trace v2 @ [Fetch q2]"
    by (auto simp: q tr1 tr2)
  have "monthsDone E uid w (Suc (Suc (Suc 0))) = (Inr (), v3)"
    using monthsDone_Suc [of "Suc (Suc 0)" E uid w] m2 d3 by (simp add: numeral_2_eq_2)
  then have m3: "monthsDone E uid w 3 = (Inr (), v3)"
    by (simp add: numeral_3_eq_3)
  have run: "downloadServerData E uid w = updateLastSyncTime E uid v3"
    using assms(1) m3 by (simp add: download_unfold)
  have merged: "timeEntries v3 = mergeEntries uid (es0 @ es1 @ es2) (timeEntries w)"
    by (simp add: t1 t2 t3 mergeEntries_append)
  have traced: "trace v3 = trace w @ [Fetch q0, Fetch q1, Fetch q2]"
    by (simp add: tr1 tr2 tr3)
  show ?thesis
    by (simp add: run updateLastSyncTime_total [OF assms(2)] updateLastSyncTime_frame(1)
          updateLastSyncTime_trace merged traced)
qed

text \<open>
  C5. For every server entry that downloadServerData processes. The body of its inner
  loop, storeServerEntry, when its storage operations succeed: if a local time entry with
  the same userId, the same date and the same timeStarted exists, the time entries are left
  as they were; otherwise exactly one record is appended, with the fields of the server
  entry (the participants of its studies as names) and synced = true. The sync queue is not
  changed. And the download does this with every entry that the server returns: when it is
  online, the storage engine reports no failure and the responses of the three months can
  be read, the call returns, and the time entries are the old ones with this rule applied
  to the entries of the three months, one after the other. In every case the download
  leaves the sync queue as it was.
\<close>

theorem server_entry_stored_once:
  "(noStoreFailure E \<longrightarrow> fst (storeServerEntry E uid entry w) = Inr ()) \<and>
   (\<forall>w'. storeServerEntry E uid entry w = (Inr (), w') \<longrightarrow>
      (if existsLocally uid entry w
       then rows (timeEntries w') = rows (timeEntries w)
       else rows (timeEntries w') =
              rows (timeEntries w) @
                [(nextKey (timeEntries w),
                  \<lparr>userId = uid, date = se_date entry, timeStarted = se_timeStarted entry,
                   timeEnded = se_timeEnded entry, hoursWorked = se_hoursWorked entry,
                   studies = map participant (se_studies entry),
                   participated = se_participated entry, comments = se_comments entry,
                   synced = True, createdAt = se_createdAt entry,
                   updatedAt = se_updatedAt entry\<rparr>)]) \<and>
      syncQueue w' = syncQueue w) \<and>
   (onLine w \<and> noStoreFailure E \<and> downloadRequests E w = [q0, q1, q2] \<and>
    monthEntries (respond E (trace w) q0) = Some es0 \<and>
    monthEntries (respond E (trace w @ [Fetch q0]) q1) = Some es1 \<and>
    monthEntries (respond E (trace w @ [Fetch q0, Fetch q1]) q2) = Some es2 \<longrightarrow>
      fst (downloadServerData E uid w) = Inr () \<and>
      timeEntries (snd (downloadServerData E uid w)) =
        mergeEntries uid (es0 @ es1 @ es2) (timeEntries w) \<and>
      trace (snd (downloadServerData E uid w)) = trace w @ [Fetch q0, Fetch q1, Fetch q2]) \<and>
   syncQueue (snd (downloadServerData E uid w)) = syncQueue w"
proof (intro conjI impI allI)
  show "fst (storeServerEntry E uid entry w) = Inr ()" if "noStoreFailure E"
    using that by (simp add: storeServerEntry_run noStoreFailure_def)
next
  fix w' assume "storeServerEntry E uid entry w = (Inr (), w')"
  then show "if existsLocally uid entry w
       then rows (timeEntries w') = rows (timeEntries w)
       else rows (timeEntries w') =
              rows (timeEntries w) @
                [(nextKey (timeEntries w),
                  \<lparr>userId = uid, date = se_date entry, timeStarted = se_timeStarted entry,
                   timeEnded = se_timeEnded entry, hoursWorked = se_hoursWorked entry,
                   studies = map participant (se_studies entry),
                   participated = se_participated entry, comments = se_comments entry,
                   synced = True, createdAt = se_createdAt entry,
                   updatedAt = se_updatedAt entry\<rparr>)]"
    and "syncQueue w' = syncQueue w"
    by (auto simp: storeServerEntry_run toOfflineEntry_def split: if_splits)
next
  assume h: "onLine w \<and> noStoreFailure E \<and> downloadRequests E w = [q0, q1, q2] \<and>
    monthEntries (respond E (trace w) q0) = Some es0 \<and>
    monthEntries (respond E (trace w @ [Fetch q0]) q1) = Some es1 \<and>
    monthEntries (respond E (trace w @ [Fetch q0, Fetch q1]) q2) = Some es2"
  then have "fst (downloadServerData E uid w) = Inr () \<and>
      timeEntries (snd (downloadServerData E uid w)) =
        mergeEntries uid (es0 @ es1 @ es2) (timeEntries w) \<and>
      trace (snd (downloadServerData E uid w)) = trace w @ [Fetch q0, Fetch q1, Fetch q2]"
    by (intro download_merge) simp_all
  then show "fst (downloadServerData E uid w) = Inr ()"
    and "timeEntries (snd (downloadServerData E uid w)) =
        mergeEntries uid (es0 @ es1 @ es2) (timeEntries w)"
    and "trace (snd (downloadServerData E uid w)) = trace w @ [Fetch q0, Fetch q1, Fetch q2]"
    by simp_all
next
  show "syncQueue (snd (downloadServerData E uid w)) = syncQueue w"
    by (rule download_queue_unchanged)
qed

theorem server_entry_stored_once_witness:
  "noStoreFailure exampleEnv \<and>
   \<not> existsLocally ''ann@example.org'' serverVisit cachedWorld \<and>
   rows (timeEntries (snd (storeServerEntry exampleEnv ''ann@example.org'' serverVisit
     cachedWorld))) = [(1, toOfflineEntry ''ann@example.org'' serverVisit)] \<and>
   existsLocally ''ann@example.org'' serverVisit
     (snd (storeServerEntry exampleEnv ''ann@example.org'' serverVisit cachedWorld)) \<and>
   rows (timeEntries (snd (storeServerEntry exampleEnv ''ann@example.org'' serverVisit
     (snd (storeServerEntry exampleEnv ''ann@example.org'' serverVisit cachedWorld))))) =
     [(1, toOfflineEntry ''ann@example.org'' serverVisit)] \<and>
   rows (syncQueue (snd (storeServerEntry exampleEnv ''ann@example.org'' serverVisit
     (snd (storeServerEntry exampleEnv ''ann@example.org'' serverVisit cachedWorld))))) = [] \<and>
   onLine cachedWorld \<and> noStoreFailure servingEnv \<and>
   downloadRequests servingEnv cachedWorld =
     [GetMonthly 2024 6, GetMonthly 2024 5, GetMonthly 2024 4] \<and>
   monthEntries (respond servingEnv (trace cachedWorld) (GetMonthly 2024 6)) =
     Some [serverVisit, serverVisit] \<and>
   fst (downloadServerData servingEnv ''ann@example.org'' cachedWorld) = Inr () \<and>
   rows (timeEntries (snd (downloadServerData servingEnv ''ann@example.org'' cachedWorld))) =
     [(1, toOfflineEntry ''ann@example.org'' serverVisit)]"
proof -
  let ?uid = "''ann@example.org''"
  let ?store = "storeServerEntry exampleEnv ?uid serverVisit"
  let ?q0 = "GetMonthly 2024 6" and ?q1 = "GetMonthly 2024 5" and ?q2 = "GetMonthly 2024 4"
  note total = server_entry_stored_once [THEN conjunct1, rule_format, OF noStoreFailure_exampleEnv]
  note effect = server_entry_stored_once [THEN conjunct2, THEN conjunct1, rule_format]
  note whole = server_entry_stored_once [THEN conjunct2, THEN conjunct2, THEN conjunct1,
      rule_format]
  have new: "\<not> existsLocally ?uid serverVisit cachedWorld"
    by (simp add: existsLocally_def cachedWorld_def emptyWorld_def emptyTable_def)
  have "fst (?store cachedWorld) = Inr ()" by (rule total)
  then obtain w1 where w1: "?store cachedWorld = (Inr (), w1)"
    by (cases "?store cachedWorld") simp
  from effect [OF w1] new
  have first: "rows (timeEntries w1) =
      rows (timeEntries cachedWorld) @
        [(nextKey (timeEntries cachedWorld), toOfflineEntry ?uid serverVisit)]"
    "syncQueue w1 = syncQueue cachedWorld"
    by (simp_all add: toOfflineEntry_def)
  then have rows1: "rows (timeEntries w1) = [(1, toOfflineEntry ?uid serverVisit)]"
    by (simp add: cachedWorld_def emptyWorld_def emptyTable_def)
  then have dup: "existsLocally ?uid serverVisit w1"
    by (simp add: existsLocally_def toOfflineEntry_def)
  have "fst (?store w1) = Inr ()" by (rule total)
  then obtain w2 where w2: "?store w1 = (Inr (), w2)"
    by (cases "?store w1") simp
  from effect [OF w2] dup
  have second: "rows (timeEntries w2) = rows (timeEntries w1)" "syncQueue w2 = syncQueue w1"
    by simp_all
  have empty: "rows (syncQueue cachedWorld) = []"
    by (simp add: cachedWorld_def emptyWorld_def emptyTable_def)
  have online: "onLine cachedWorld"
    by (simp add: cachedWorld_def emptyWorld_def)
  have works: "noStoreFailure servingEnv"
    by (simp add: noStoreFailure_def servingEnv_def exampleEnv_def)
  have requests: "downloadRequests servingEnv cachedWorld = [?q0, ?q1, ?q2]"
    by (simp add: downloadRequests_def monthRequest_def currentYear_def currentMonth_def
          servingEnv_def exampleEnv_def cachedWorld_def emptyWorld_def utc_june_2024 Let_def)
  have june: "monthEntries (respond servingEnv (trace cachedWorld) ?q0) =
      Some [serverVisit, serverVisit]"
    and may: "monthEntries (respond servingEnv (trace cachedWorld @ [Fetch ?q0]) ?q1) = Some []"
    and april: "monthEntries (respond servingEnv (trace cachedWorld @ [Fetch ?q0, Fetch ?q1]) ?q2) =
      Some []"
    by (simp_all add: monthEntries_def servingEnv_def)
  from whole [of cachedWorld servingEnv ?q0 ?q1 ?q2 "[serverVisit, serverVisit]" "[]" "[]" ?uid]
    online works requests june may april
  have finished: "fst (downloadServerData servingEnv ?uid cachedWorld) = Inr ()"
    "timeEntries (snd (downloadServerData servingEnv ?uid cachedWorld)) =
       mergeEntries ?uid ([serverVisit, serverVisit] @ [] @ []) (timeEntries cachedWorld)"
    by blast+
  have "rows (mergeEntries ?uid ([serverVisit, serverVisit] @ [] @ []) (timeEntries cachedWorld)) =
      [(1, toOfflineEntry ?uid serverVisit)]"
    by (simp add: cachedWorld_def emptyWorld_def emptyTable_def toOfflineEntry_def)
  with finished have merged:
    "rows (timeEntries (snd (downloadServerData servingEnv ?uid cachedWorld))) =
       [(1, toOfflineEntry ?uid serverVisit)]"
    by simp
  from new w1 first(2) rows1 dup w2 second noStoreFailure_exampleEnv empty online works
    requests june finished(1) merged
  show ?thesis
    by simp
qed




section \<open>Conflict resolution\<close>






end
